theory Spec2Isabelle
  imports Complex_Main "HOL-Library.Sublist"
begin

section \<open>Python strings\<close>

text \<open>
  A Python \<open>str\<close> is a sequence of Unicode code points; it is modelled as a list of
  natural numbers, so that \<open>len\<close>, slicing and \<open>split\<close> count what Python counts.
  ASCII literals of the source are written \<open>lit ''...''\<close>.
\<close>

type_synonym str = "nat list"

definition lit :: "string \<Rightarrow> str" where
  "lit s = map of_char s"

text \<open>
  \<open>str.isspace\<close> on one code point; \<open>str.split()\<close>, \<open>str.strip()\<close> and the regular
  expression class \<open>\s\<close> (on \<open>str\<close> patterns) all use this set.
\<close>

definition isspace :: "nat \<Rightarrow> bool" where
  "isspace c \<longleftrightarrow>
     (9 \<le> c \<and> c \<le> 13) \<or> (28 \<le> c \<and> c \<le> 32) \<or> c = 133 \<or> c = 160 \<or> c = 5760 \<or>
     (8192 \<le> c \<and> c \<le> 8202) \<or> c = 8232 \<or> c = 8233 \<or> c = 8239 \<or> c = 8287 \<or> c = 12288"

abbreviation nonspace :: "nat \<Rightarrow> bool" where
  "nonspace \<equiv> (\<lambda>c. \<not> isspace c)"

text \<open>\<open>s.split()\<close>: the maximal runs of non-whitespace code points, in order.\<close>

function py_split :: "str \<Rightarrow> str list" where
  "py_split [] = []"
| "py_split (c # cs) =
     (if isspace c then py_split cs
      else (c # takeWhile nonspace cs) # py_split (dropWhile nonspace cs))"
  by pat_completeness auto
termination
  by (relation "measure length") (auto simp: length_dropWhile_le less_Suc_eq_le)

text \<open>\<open>s.strip()\<close>.\<close>

definition py_strip :: "str \<Rightarrow> str" where
  "py_strip s = rev (dropWhile isspace (rev (dropWhile isspace s)))"

text \<open>\<open>sep.join(xs)\<close>.\<close>

fun py_join :: "str \<Rightarrow> str list \<Rightarrow> str" where
  "py_join sep [] = []"
| "py_join sep [x] = x"
| "py_join sep (x # y # ys) = x @ sep @ py_join sep (y # ys)"

text \<open>\<open>xs[-k:]\<close> for \<open>k > 0\<close>: the last \<open>k\<close> elements, all of them when there are fewer.\<close>

definition py_last_n :: "int \<Rightarrow> 'a list \<Rightarrow> 'a list" where
  "py_last_n k xs = drop (length xs - nat k) xs"

text \<open>\<open>str(n)\<close> for a non-negative integer: its decimal digits.\<close>

fun py_str_nat :: "nat \<Rightarrow> str" where
  "py_str_nat n = (if n < 10 then [48 + n] else py_str_nat (n div 10) @ [48 + n mod 10])"

declare py_str_nat.simps [simp del]

text \<open>\<open>sub in s\<close> on strings.\<close>

fun py_contains :: "str \<Rightarrow> str \<Rightarrow> bool" where
  "py_contains sub [] \<longleftrightarrow> sub = []"
| "py_contains sub (c # cs) \<longleftrightarrow> prefix sub (c # cs) \<or> py_contains sub cs"

text \<open>
  \<open>s.lower()\<close>, code point by code point. This is Python's mapping for the code points
  below 256; the case table of the rest of Unicode is not modelled and those code points
  are left as they are.
\<close>

definition py_lower :: "str \<Rightarrow> str" where
  "py_lower s =
     map (\<lambda>c. if (65 \<le> c \<and> c \<le> 90) \<or> (192 \<le> c \<and> c \<le> 222 \<and> c \<noteq> 215) then c + 32 else c) s"

section \<open>The chunker (backend/chunker.py)\<close>

record chunk_metadata =
  chunk_id :: str
  doc_id :: str
  doc_type :: str
  filename :: str
  page_number :: "int option"
  chunk_index :: nat
  "text" :: str

record text_chunker =
  chunk_size :: int
  chunk_overlap :: int
  min_chunk_size :: int

record page_info =
  page_no :: "int option"
  page_text :: str

text \<open>
  \<open>re.split(r'(?<=[.!?])\s+(?=[A-Z])', text)\<close>. The pattern matches at a position exactly
  when the previous code point is one of \<open>.!?\<close>, a non-empty maximal run of whitespace
  starts there, and the code point after the run is in \<open>A-Z\<close> (a shorter run would be
  followed by whitespace, so backtracking finds nothing else). \<open>after_punct\<close> is the
  lookbehind, \<open>cur\<close> the piece read since the last match.
\<close>

definition sentence_break :: "bool \<Rightarrow> str \<Rightarrow> bool" where
  "sentence_break after_punct rest \<longleftrightarrow>
     after_punct \<and> takeWhile isspace rest \<noteq> [] \<and>
     (case dropWhile isspace rest of [] \<Rightarrow> False | u # _ \<Rightarrow> 65 \<le> u \<and> u \<le> 90)"

function re_split_sentences :: "bool \<Rightarrow> str \<Rightarrow> str \<Rightarrow> str list" where
  "re_split_sentences after_punct cur [] = [cur]"
| "re_split_sentences after_punct cur (c # cs) =
     (if sentence_break after_punct (c # cs)
      then cur # re_split_sentences False [] (dropWhile isspace (c # cs))
      else re_split_sentences (c \<in> set (lit ''.!?'')) (cur @ [c]) cs)"
  by pat_completeness auto
termination
proof (relation "measure (\<lambda>(p, cur, rest). length rest)")
  show "wf (measure (\<lambda>(p, cur, rest). length rest))" by simp
next
  fix after_punct :: bool and cur :: str and c :: nat and cs :: str
  assume "sentence_break after_punct (c # cs)"
  then have "isspace c"
    by (auto simp: sentence_break_def split: if_splits)
  then have "length (dropWhile isspace (c # cs)) \<le> length cs"
    by (simp add: length_dropWhile_le)
  then show "((False, [], dropWhile isspace (c # cs)), (after_punct, cur, c # cs))
       \<in> measure (\<lambda>(p, cur, rest). length rest)"
    by simp
next
  fix after_punct :: bool and cur :: str and c :: nat and cs :: str
  show "((c \<in> set (lit ''.!?''), cur @ [c], cs), (after_punct, cur, c # cs))
       \<in> measure (\<lambda>(p, cur, rest). length rest)"
    by simp
qed

text \<open>\<open>TextChunker._split_into_sentences\<close>.\<close>

definition split_into_sentences :: "str \<Rightarrow> str list" where
  "split_into_sentences t =
     map py_strip (filter (\<lambda>s. py_strip s \<noteq> []) (re_split_sentences False [] t))"

text \<open>The \<open>ChunkMetadata(...)\<close> built at both emission sites of \<open>_chunk_text\<close>.\<close>

definition make_chunk :: "str \<Rightarrow> str \<Rightarrow> str \<Rightarrow> int option \<Rightarrow> nat \<Rightarrow> str \<Rightarrow> chunk_metadata" where
  "make_chunk d_id fname d_type page idx chunk_txt =
     \<lparr>chunk_id = d_id @ lit ''_chunk_'' @ py_str_nat idx, doc_id = d_id, doc_type = d_type,
      filename = fname, page_number = page, chunk_index = idx, text = chunk_txt\<rparr>"

text \<open>
  The \<open>for sentence in sentences\<close> loop of \<open>_chunk_text\<close>, as a recursion over the
  sentences still to read. The loop variables are \<open>chunks\<close>, \<open>current_chunk\<close>,
  \<open>current_word_count\<close> and \<open>chunk_index\<close>; the result is their value when the loop ends.
\<close>

fun chunk_loop ::
  "text_chunker \<Rightarrow> str \<Rightarrow> str \<Rightarrow> str \<Rightarrow> int option \<Rightarrow> str list \<Rightarrow>
   chunk_metadata list \<Rightarrow> str list \<Rightarrow> int \<Rightarrow> nat \<Rightarrow> chunk_metadata list \<times> str list \<times> nat" where
  "chunk_loop self d_id fname d_type page [] chunks current_chunk current_word_count idx =
     (chunks, current_chunk, idx)"
| "chunk_loop self d_id fname d_type page (sentence # rest) chunks current_chunk current_word_count idx =
     (let words = py_split sentence;
          word_count = int (length words)
      in if current_word_count + word_count > chunk_size self \<and> current_chunk \<noteq> [] then
           let chunk_txt = py_join (lit '' '') current_chunk;
               emit = (int (length (py_split chunk_txt)) \<ge> min_chunk_size self);
               chunks' = (if emit then chunks @ [make_chunk d_id fname d_type page idx chunk_txt]
                          else chunks);
               idx' = (if emit then idx + 1 else idx);
               overlap_words = chunk_overlap self
           in if overlap_words > 0 \<and> length current_chunk > 0 then
                let all_words = py_split (py_join (lit '' '') current_chunk);
                    overlap_text = py_join (lit '' '') (py_last_n overlap_words all_words)
                in chunk_loop self d_id fname d_type page rest chunks' [overlap_text, sentence]
                     (int (length (py_split overlap_text)) + word_count) idx'
              else chunk_loop self d_id fname d_type page rest chunks' [sentence] word_count idx'
         else chunk_loop self d_id fname d_type page rest chunks (current_chunk @ [sentence])
                (current_word_count + word_count) idx)"

text \<open>\<open>TextChunker._chunk_text\<close>: the loop from the initial state, then the final flush.\<close>

definition chunk_text :: "text_chunker \<Rightarrow> str \<Rightarrow> str \<Rightarrow> str \<Rightarrow> str \<Rightarrow> int option \<Rightarrow> chunk_metadata list" where
  "chunk_text self t d_id fname d_type page =
     (case chunk_loop self d_id fname d_type page (split_into_sentences t) [] [] 0 0 of
        (chunks, current_chunk, idx) \<Rightarrow>
          if current_chunk \<noteq> [] then
            let chunk_txt = py_join (lit '' '') current_chunk
            in if int (length (py_split chunk_txt)) \<ge> min_chunk_size self
               then chunks @ [make_chunk d_id fname d_type page idx chunk_txt]
               else chunks
          else chunks)"

text \<open>
  \<open>TextChunker.chunk_document\<close>. \<open>pages\<close> is \<open>None\<close> or a list; \<open>if pages:\<close> is false for
  both \<open>None\<close> and the empty list.
\<close>

definition chunk_document ::
  "text_chunker \<Rightarrow> str \<Rightarrow> str \<Rightarrow> str \<Rightarrow> str \<Rightarrow> page_info list option \<Rightarrow> chunk_metadata list" where
  "chunk_document self t d_id fname d_type pages =
     (case pages of
        Some (p # ps) \<Rightarrow>
          concat (map (\<lambda>pg. chunk_text self (page_text pg) d_id fname d_type (page_no pg)) (p # ps))
      | _ \<Rightarrow> chunk_text self t d_id fname d_type None)"

section \<open>Predicates used to state the chunker's properties\<close>

text \<open>A text has at least \<open>min_chunk_size\<close> words.\<close>

definition meets_floor :: "text_chunker \<Rightarrow> str \<Rightarrow> bool" where
  "meets_floor self t \<longleftrightarrow> min_chunk_size self \<le> int (length (py_split t))"

text \<open>
  \<open>overlaps k a b\<close>: the last \<open>k\<close> words of \<open>a\<close> (all of them when \<open>a\<close> has fewer) are the
  first words of \<open>b\<close>. \<open>seeded k chunks cur\<close> is the loop invariant: adjacent emitted chunks
  overlap, and the accumulator starts with the tail of the last emitted chunk.
\<close>

definition overlaps :: "int \<Rightarrow> str \<Rightarrow> str \<Rightarrow> bool" where
  "overlaps k a b \<longleftrightarrow> prefix (py_last_n k (py_split a)) (py_split b)"

text \<open>
  \<open>groups\<close> are the chunks of a run with the floor set to \<open>0\<close>, that is every group the run
  closes, in order. \<open>emitted_groups\<close> lists the positions of those that meet the floor: its
  \<open>i\<close>-th entry is the position, among the closed groups, of the \<open>i\<close>-th emitted chunk.
\<close>

definition emitted_groups :: "text_chunker \<Rightarrow> chunk_metadata list \<Rightarrow> nat list" where
  "emitted_groups self groups =
     filter (\<lambda>j. meets_floor self (text (groups ! j))) [0..<length groups]"

definition seeded :: "int \<Rightarrow> chunk_metadata list \<Rightarrow> str list \<Rightarrow> bool" where
  "seeded k chunks cur \<longleftrightarrow>
     successively (overlaps k) (map text chunks) \<and>
     (chunks \<noteq> [] \<longrightarrow> overlaps k (text (last chunks)) (py_join (lit '' '') cur))"

section \<open>The vector store (backend/vector_store.py)\<close>

text \<open>
  Exceptions are values: an operation that can raise returns \<open>Inl\<close> of the error. An
  operation that mutates the store also returns the store as the exception leaves it.
\<close>

datatype py_error =
  ValueError | AssertionError | RuntimeError | IndexError | HTTPException nat | Exception str

text \<open>
  \<open>xs[i]\<close> on a Python list: a negative index counts from the end, and an index outside
  \<open>-len(xs) .. len(xs) - 1\<close> raises \<open>IndexError\<close>. \<open>py_get\<close> is the element read when
  nothing is raised.
\<close>

definition py_get :: "'a list \<Rightarrow> int \<Rightarrow> 'a" where
  "py_get xs i = xs ! nat (if i < 0 then int (length xs) + i else i)"

definition py_nth :: "'a list \<Rightarrow> int \<Rightarrow> py_error + 'a" where
  "py_nth xs i =
     (if - int (length xs) \<le> i \<and> i < int (length xs) then Inr (py_get xs i) else Inl IndexError)"

text \<open>
  A two-dimensional \<open>numpy\<close> array: its second shape component and its rows. Numbers are
  real numbers; the rounding of \<open>astype('float32')\<close> is not modelled, so the conversion is
  the identity.
\<close>

record ndarray2 =
  ncols :: nat
  arows :: "real list list"

text \<open>
  The \<open>faiss.IndexFlatL2\<close> object, as its Python wrapper behaves: it stores the vectors in
  insertion order, \<open>add\<close> asserts that the width of its argument is the dimension of the
  index (\<open>assert d == self.d\<close>), and \<open>reconstruct\<close> fails on a row that does not exist.
\<close>

record index_flat_l2 =
  index_d :: nat
  xb :: "real list list"

definition IndexFlatL2 :: "nat \<Rightarrow> index_flat_l2" where
  "IndexFlatL2 dm = \<lparr>index_d = dm, xb = []\<rparr>"

definition ntotal :: "index_flat_l2 \<Rightarrow> nat" where
  "ntotal ix = length (xb ix)"

definition faiss_add :: "index_flat_l2 \<Rightarrow> ndarray2 \<Rightarrow> py_error + index_flat_l2" where
  "faiss_add ix x =
     (if ncols x = index_d ix then Inr (ix\<lparr>xb := xb ix @ arows x\<rparr>) else Inl AssertionError)"

definition faiss_reconstruct :: "index_flat_l2 \<Rightarrow> nat \<Rightarrow> py_error + real list" where
  "faiss_reconstruct ix i = (if i < ntotal ix then Inr (xb ix ! i) else Inl RuntimeError)"

definition sqdist :: "real list \<Rightarrow> real list \<Rightarrow> real" where
  "sqdist q v = sum_list (map (\<lambda>(a, b). (a - b)\<^sup>2) (zip q v))"

text \<open>
  \<open>index.search(query, k)\<close> is computed by the library in 32-bit floating point and is not
  modelled: it is a parameter of \<open>search\<close> below, a function that raises or returns the
  list \<open>zip(distances[0], indices[0])\<close> of pairs of a distance and a row label. A label is
  an integer: the library reports \<open>-1\<close>, with the distance \<open>FLT_MAX\<close>, in every slot for
  which it found no row.
\<close>

type_synonym faiss_search_fn =
  "index_flat_l2 \<Rightarrow> real list \<Rightarrow> int \<Rightarrow> py_error + (real \<times> int) list"

text \<open>
  One such function, used in the examples: the search that asserts the query's width and
  \<open>k > 0\<close> as the wrapper does and computes every distance exactly, returning the \<open>k\<close>
  nearest rows, nearest first and in row order at equal distance. The library agrees with it
  where the 32-bit arithmetic is exact and no row is left out.
\<close>

definition exact_search :: faiss_search_fn where
  "exact_search ix q k =
     (if length q \<noteq> index_d ix then Inl AssertionError
      else if k \<le> 0 then Inl AssertionError
      else Inr (take (nat k)
                  (sort_key fst (zip (map (sqdist q) (xb ix)) (map int [0..<ntotal ix])))))"

text \<open>\<open>FLT_MAX\<close>, the largest finite 32-bit floating point number.\<close>

definition flt_max :: real where
  "flt_max = 2 ^ 128 - 2 ^ 104"

text \<open>
  The \<open>VectorStore\<close> object. An entry of \<open>self.metadata\<close> is a dictionary with exactly the
  seven fields of \<open>ChunkMetadata\<close>, copied one by one in \<open>add_embeddings\<close>; it is modelled
  by the same record.
\<close>

record vector_store =
  embedding_dim :: nat
  index :: index_flat_l2
  metadata :: "chunk_metadata list"

text \<open>\<open>VectorStore.__init__\<close> when neither file exists.\<close>

definition VectorStore_init :: "nat \<Rightarrow> vector_store" where
  "VectorStore_init dm = \<lparr>embedding_dim = dm, index = IndexFlatL2 dm, metadata = []\<rparr>"

text \<open>\<open>VectorStore.add_embeddings\<close>.\<close>

definition add_embeddings ::
  "vector_store \<Rightarrow> ndarray2 \<Rightarrow> chunk_metadata list \<Rightarrow> (py_error + unit) \<times> vector_store" where
  "add_embeddings self embeddings chunks =
     (if length (arows embeddings) \<noteq> length chunks then (Inl ValueError, self)
      else case faiss_add (index self) embeddings of
             Inl e \<Rightarrow> (Inl e, self)
           | Inr ix \<Rightarrow> (Inr (), self\<lparr>index := ix, metadata := metadata self @ chunks\<rparr>))"

text \<open>
  \<open>doc_ids\<close> is \<open>None\<close> or a list. \<open>truthy\<close> is Python's truth value of it (false for
  \<open>None\<close> and for the empty list); \<open>py_in\<close> is \<open>x in doc_ids\<close>, evaluated only when \<open>doc_ids\<close>
  is a list.
\<close>

definition truthy :: "'a list option \<Rightarrow> bool" where
  "truthy xs = (case xs of Some (_ # _) \<Rightarrow> True | _ \<Rightarrow> False)"

definition py_in :: "'a \<Rightarrow> 'a list option \<Rightarrow> bool" where
  "py_in x xs = (case xs of Some l \<Rightarrow> x \<in> set l | None \<Rightarrow> False)"

text \<open>
  The loop of \<open>search\<close> over \<open>zip(distances[0], indices[0])\<close>; \<open>results\<close> is the list built so
  far, and the \<open>break\<close> returns it. The only guard on the label is
  \<open>idx < len(self.metadata)\<close>, so a negative label is read with \<open>self.metadata[idx]\<close>.
\<close>

fun search_loop ::
  "vector_store \<Rightarrow> int \<Rightarrow> str list option \<Rightarrow> (real \<times> int) list \<Rightarrow>
   (chunk_metadata \<times> real) list \<Rightarrow> py_error + (chunk_metadata \<times> real) list" where
  "search_loop self top_k doc_ids [] results = Inr results"
| "search_loop self top_k doc_ids ((dst, idx) # rest) results =
     (if idx < int (length (metadata self)) then
        case py_nth (metadata self) idx of
          Inl e \<Rightarrow> Inl e
        | Inr m \<Rightarrow>
            if truthy doc_ids \<and> \<not> py_in (doc_id m) doc_ids
            then search_loop self top_k doc_ids rest results
            else let similarity = 1 / (1 + dst);
                     results' = results @ [(m, similarity)]
                 in if int (length results') \<ge> top_k then Inr results'
                    else search_loop self top_k doc_ids rest results'
      else search_loop self top_k doc_ids rest results)"

text \<open>\<open>VectorStore.search\<close>; \<open>index_search\<close> is \<open>self.index.search\<close>.\<close>

definition search ::
  "faiss_search_fn \<Rightarrow> vector_store \<Rightarrow> real list \<Rightarrow> int \<Rightarrow> str list option \<Rightarrow>
   py_error + (chunk_metadata \<times> real) list" where
  "search index_search self query_embedding top_k doc_ids =
     (if ntotal (index self) = 0 then Inr []
      else let search_k = (if truthy doc_ids then top_k * 10 else top_k)
           in case index_search (index self) query_embedding
                     (min search_k (int (ntotal (index self)))) of
                Inl e \<Rightarrow> Inl e
              | Inr hits \<Rightarrow> search_loop self top_k doc_ids hits [])"

text \<open>\<open>VectorStore.get_chunks_by_doc_id\<close>.\<close>

definition get_chunks_by_doc_id :: "vector_store \<Rightarrow> str \<Rightarrow> chunk_metadata list" where
  "get_chunks_by_doc_id self d_id = filter (\<lambda>m. doc_id m = d_id) (metadata self)"

text \<open>The list comprehension \<open>[self.index.reconstruct(i) for i in indices_to_keep]\<close>.\<close>

fun reconstruct_all :: "index_flat_l2 \<Rightarrow> nat list \<Rightarrow> py_error + real list list" where
  "reconstruct_all ix [] = Inr []"
| "reconstruct_all ix (i # rest) =
     (case faiss_reconstruct ix i of
        Inl e \<Rightarrow> Inl e
      | Inr v \<Rightarrow> (case reconstruct_all ix rest of Inl e \<Rightarrow> Inl e | Inr vs \<Rightarrow> Inr (v # vs)))"

text \<open>
  \<open>VectorStore.delete_document\<close>. The array built from the reconstructed vectors has the
  width of the old index. When \<open>add\<close> on the fresh index raises, \<open>self.index\<close> has already
  been replaced and \<open>self.metadata\<close> has not.
\<close>

definition delete_document :: "vector_store \<Rightarrow> str \<Rightarrow> (py_error + unit) \<times> vector_store" where
  "delete_document self d_id =
     (let indices_to_keep =
            filter (\<lambda>i. doc_id (metadata self ! i) \<noteq> d_id) [0..<length (metadata self)]
      in if length indices_to_keep = length (metadata self) then (Inr (), self)
         else if indices_to_keep \<noteq> [] then
           case reconstruct_all (index self) indices_to_keep of
             Inl e \<Rightarrow> (Inl e, self)
           | Inr old_vectors \<Rightarrow>
               (case faiss_add (IndexFlatL2 (embedding_dim self))
                       \<lparr>ncols = index_d (index self), arows = old_vectors\<rparr> of
                  Inl e \<Rightarrow> (Inl e, self\<lparr>index := IndexFlatL2 (embedding_dim self)\<rparr>)
                | Inr ix \<Rightarrow>
                    (Inr (), self\<lparr>index := ix,
                                 metadata := map (\<lambda>i. metadata self ! i) indices_to_keep\<rparr>))
         else (Inr (), self\<lparr>index := IndexFlatL2 (embedding_dim self), metadata := []\<rparr>))"

text \<open>\<open>get_stats()['total_chunks']\<close>.\<close>

definition total_chunks :: "vector_store \<Rightarrow> nat" where
  "total_chunks self = ntotal (index self)"

text \<open>
  The state invariant of the store: the index has the configured dimension and one row per
  metadata entry. It holds after \<open>__init__\<close> without files and is kept by
  \<open>add_embeddings\<close> and \<open>delete_document\<close>.
\<close>

definition store_ok :: "vector_store \<Rightarrow> bool" where
  "store_ok self \<longleftrightarrow>
     index_d (index self) = embedding_dim self \<and> length (metadata self) = ntotal (index self)"

section \<open>Terms used to state the vector store's properties\<close>

text \<open>
  What the loop of \<open>search\<close> does with one hit \<open>(distance, label)\<close> whose label can be read:
  \<open>hit_kept\<close> is the test that lets it through, \<open>hit_result\<close> the entry appended for it.
\<close>

definition hit_kept :: "vector_store \<Rightarrow> str list option \<Rightarrow> real \<times> int \<Rightarrow> bool" where
  "hit_kept self doc_ids h \<longleftrightarrow>
     snd h < int (length (metadata self)) \<and>
     \<not> (truthy doc_ids \<and> \<not> py_in (doc_id (py_get (metadata self) (snd h))) doc_ids)"

definition hit_result :: "vector_store \<Rightarrow> real \<times> int \<Rightarrow> chunk_metadata \<times> real" where
  "hit_result self h = (py_get (metadata self) (snd h), 1 / (1 + fst h))"

text \<open>A store with three chunks of two documents, used in the examples.\<close>

definition example_chunk :: "string \<Rightarrow> nat \<Rightarrow> chunk_metadata" where
  "example_chunk d i = make_chunk (lit d) (lit ''f.pdf'') (lit ''policy'') None i (lit ''Some text.'')"

definition example_store :: vector_store where
  "example_store =
     \<lparr>embedding_dim = 2, index = \<lparr>index_d = 2, xb = [[0, 0], [3, 4], [1, 0]]\<rparr>,
      metadata = [example_chunk ''a'' 0, example_chunk ''b'' 0, example_chunk ''a'' 1]\<rparr>"

text \<open>
  A store of two rows, the first so far from the origin that its squared distance to the
  query \<open>[0, 0]\<close> is beyond \<open>FLT_MAX\<close>. Asked for the two rows nearest to \<open>[0, 0]\<close>, the
  library finds row \<open>1\<close> at distance \<open>1\<close> and no second row: the second slot of its answer
  keeps the label \<open>-1\<close> and the distance \<open>FLT_MAX\<close>. \<open>overflow_answer\<close> is that answer.
\<close>

definition overflow_store :: vector_store where
  "overflow_store =
     \<lparr>embedding_dim = 2, index = \<lparr>index_d = 2, xb = [[10 ^ 20, 0], [1, 0]]\<rparr>,
      metadata = [example_chunk ''a'' 0, example_chunk ''b'' 0]\<rparr>"

definition overflow_answer :: faiss_search_fn where
  "overflow_answer ix q k = Inr [(1, 1), (flt_max, - 1)]"

section \<open>The query engine (backend/rag_engine.py) and its endpoint (backend/main.py)\<close>

record source_chunk =
  src_text :: str
  src_doc_id :: str
  src_filename :: str
  src_doc_type :: str
  src_page_number :: "int option"
  similarity_score :: real

record query_response =
  question :: str
  answer :: str
  sources :: "source_chunk list"
  confidence :: "real option"

record query_request =
  req_question :: str
  req_doc_ids :: "str list option"
  req_top_k :: int

text \<open>
  The regular expressions of \<open>_generate_fallback_answer\<close>, all searched with
  \<open>re.IGNORECASE\<close> in the context (U+20B9 is the rupee sign):
  \<^item> \<open>PolicyNumberFormat\<close>: \<^verbatim>\<open>Policy\s*(?:No|Number|#)?[:\s]+([A-Z]{3}-\d{4}-[A-Z]{2}-\d{6})\<close>
  \<^item> \<open>PolicyNumberLoose\<close>: \<^verbatim>\<open>Policy\s*(?:No|Number|#)?[:\s]+([A-Z0-9\-/]{10,})\<close>
  \<^item> \<open>ClaimAmount\<close>: \<^verbatim>\<open>(?:Claim\s*Amount|Total\s*Claim|TOTAL\s*PAYABLE)[:\s]*U+20B9?\s*([\d,]+(?:\.\d{2})?)\<close>
  \<^item> \<open>HospitalName\<close>: \<^verbatim>\<open>Hospital\s*(?:Name)?[:\s]*([A-Z][a-zA-Z\s&]+(?:Hospital|Medical|Clinic))\<close>
  \<^item> \<open>Diagnosis\<close>: \<^verbatim>\<open>Diagnosis[:\s]*([A-Z][a-zA-Z\s]+)\<close>
  \<^item> \<open>SumAssured\<close>: \<^verbatim>\<open>Sum\s*Assured[:\s]*U+20B9?\s*([\d,]+)\<close>
  \<^item> \<open>PatientName\<close>: \<^verbatim>\<open>Patient\s*Name[:\s]*([A-Z][a-z]+(?:\s+[A-Z][a-z]+)+)\<close>
  \<^item> \<open>SummaryPolicy\<close>: \<^verbatim>\<open>Policy\s*(?:No|Number)?[:\s]*([A-Z0-9\-/]+)\<close>
  \<^item> \<open>SummaryClaim\<close>: \<^verbatim>\<open>(?:Claim\s*Amount|TOTAL)[:\s]*U+20B9?\s*([\d,]+)\<close>
  \<^item> \<open>SummaryHospital\<close>: \<^verbatim>\<open>Hospital[:\s]*([A-Z][a-zA-Z\s&]+Hospital)\<close>

  In every one of them group 1 takes part in each match, so \<open>match.group(1)\<close> is a string
  whenever \<open>match\<close> is not \<open>None\<close>.
\<close>

datatype pattern =
  PolicyNumberFormat | PolicyNumberLoose | ClaimAmount | HospitalName | Diagnosis |
  SumAssured | PatientName | SummaryPolicy | SummaryClaim | SummaryHospital

text \<open>
  The engine and what it calls. \<open>index_search\<close> is the \<open>search\<close> of the index inside the
  store, \<open>embed_text\<close> is \<open>Embedder.embed_text\<close>, \<open>llm_generate\<close> is
  the backend selected in \<open>__init__\<close> (\<open>_generate_with_openai\<close> or
  \<open>_generate_with_ollama\<close>), which returns the answer or raises, and \<open>re_search p s\<close> is
  \<open>re.search(p, s, re.IGNORECASE)\<close>, giving \<open>group(1)\<close> of the match or \<open>None\<close>. The four
  are parameters: the properties below hold whatever they compute.
\<close>

record rag_engine =
  vector_store :: vector_store
  index_search :: faiss_search_fn
  embed_text :: "str \<Rightarrow> real list"
  llm_generate :: "str \<Rightarrow> py_error + str"
  re_search :: "pattern \<Rightarrow> str \<Rightarrow> str option"

text \<open>The calls made to the embedding provider and to the generative backend, in order.\<close>

datatype event = EmbedCall str | LLMCall str

text \<open>\<open>RAGEngine._create_prompt\<close>.\<close>

definition create_prompt :: "str \<Rightarrow> str \<Rightarrow> str" where
  "create_prompt qn context =
     lit ''You are an AI assistant helping with insurance claim analysis. Answer the question based ONLY on the provided context from insurance documents.'' @ [10, 10] @
     lit ''Context from documents:'' @ [10] @ context @ [10, 10] @
     lit ''Question: '' @ qn @ [10, 10] @
     lit ''Instructions:'' @ [10] @
     lit ''1. Answer based ONLY on the information in the context above'' @ [10] @
     lit ''2. If the context doesn'' @ [39] @ lit ''t contain enough information, say so clearly'' @ [10] @
     lit ''3. Be specific and cite relevant details from the documents'' @ [10] @
     lit ''4. Keep your answer concise and factual'' @ [10] @
     lit ''5. If mentioning amounts, dates, or policy numbers, quote them exactly as they appear'' @ [10, 10] @
     lit ''Answer:''"

text \<open>
  The keyword chain of \<open>_generate_fallback_answer\<close>: \<open>Some\<close> of the answer when a branch
  returns, \<open>None\<close> when control reaches the default \<open>return\<close> at the end (no keyword in the
  question, or the branch taken finds no match).
\<close>

definition keyword_extract :: "(pattern \<Rightarrow> str \<Rightarrow> str option) \<Rightarrow> str \<Rightarrow> str \<Rightarrow> str option" where
  "keyword_extract re qn context =
     (let question_lower = py_lower qn;
          has = (\<lambda>k. py_contains (lit k) question_lower)
      in if has ''policy number'' then
           (case (case re PolicyNumberFormat context of
                    None \<Rightarrow> re PolicyNumberLoose context
                  | Some g \<Rightarrow> Some g) of
              Some g \<Rightarrow> Some (lit ''Based on the documents, the policy number is '' @ g @ lit ''.'')
            | None \<Rightarrow> None)
         else if has ''claim amount'' \<or> (has ''claim'' \<and> has ''amount'') then
           (case re ClaimAmount context of
              Some g \<Rightarrow> Some (lit ''Based on the documents, the claim amount is '' @ [8377] @ g @ lit ''.'')
            | None \<Rightarrow> None)
         else if has ''hospital'' then
           (case re HospitalName context of
              Some g \<Rightarrow> Some (lit ''Based on the documents, the hospital mentioned is '' @ py_strip g @ lit ''.'')
            | None \<Rightarrow> None)
         else if has ''diagnosis'' then
           (case re Diagnosis context of
              Some g \<Rightarrow> Some (lit ''Based on the documents, the diagnosis is '' @ py_strip g @ lit ''.'')
            | None \<Rightarrow> None)
         else if has ''sum assured'' \<or> has ''coverage'' then
           (case re SumAssured context of
              Some g \<Rightarrow> Some (lit ''Based on the documents, the sum assured is '' @ [8377] @ g @ lit ''.'')
            | None \<Rightarrow> None)
         else if has ''patient'' \<or> has ''name'' then
           (case re PatientName context of
              Some g \<Rightarrow> Some (lit ''Based on the documents, the patient name is '' @ py_strip g @ lit ''.'')
            | None \<Rightarrow> None)
         else if has ''summarize'' \<or> has ''summary'' then
           (let policy_num = re SummaryPolicy context;
                claim_amt = re SummaryClaim context;
                hospital = re SummaryHospital context;
                summary_parts =
                  (case policy_num of Some g \<Rightarrow> [lit ''Policy Number: '' @ g] | None \<Rightarrow> []) @
                  (case claim_amt of Some g \<Rightarrow> [lit ''Claim Amount: '' @ [8377] @ g] | None \<Rightarrow> []) @
                  (case hospital of Some g \<Rightarrow> [lit ''Hospital: '' @ py_strip g] | None \<Rightarrow> [])
            in if summary_parts \<noteq> []
               then Some (lit ''Based on the documents, here'' @ [39] @ lit ''s a summary:'' @ [10] @
                          py_join [10] summary_parts)
               else None)
         else None)"

text \<open>The default \<open>return\<close> of \<open>_generate_fallback_answer\<close>, with \<open>context[:500]\<close>.\<close>

definition context_preview_answer :: "str \<Rightarrow> str" where
  "context_preview_answer context =
     lit ''Based on the retrieved documents: '' @ take 500 context @ lit ''...'' @ [10, 10] @
     lit ''(Note: LLM is currently unavailable. This is a basic extraction from the documents. For better answers, please configure OpenAI API key or ensure Ollama is running with llama2 model loaded.)''"

text \<open>\<open>RAGEngine._generate_fallback_answer\<close>.\<close>

definition generate_fallback_answer :: "(pattern \<Rightarrow> str \<Rightarrow> str option) \<Rightarrow> str \<Rightarrow> str \<Rightarrow> str" where
  "generate_fallback_answer re qn context =
     (case keyword_extract re qn context of
        Some a \<Rightarrow> a
      | None \<Rightarrow> context_preview_answer context)"

text \<open>\<open>RAGEngine._generate_answer\<close>: the \<open>try\<close> around the backend, the fallback in \<open>except\<close>.\<close>

definition generate_answer :: "rag_engine \<Rightarrow> str \<Rightarrow> str \<Rightarrow> str" where
  "generate_answer self qn context =
     (let prompt = create_prompt qn context
      in case llm_generate self prompt of
           Inr a \<Rightarrow> a
         | Inl e \<Rightarrow> generate_fallback_answer (re_search self) qn context)"

text \<open>
  The context block of \<open>query\<close>:
  \<^verbatim>\<open>"\n\n".join([f"[Source {i+1}]: {chunk}" for i, chunk in enumerate(context_chunks)])\<close>.
\<close>

definition source_context :: "(chunk_metadata \<times> real) list \<Rightarrow> str" where
  "source_context search_results =
     py_join [10, 10]
       (map (\<lambda>(i, chunk). lit ''[Source '' @ py_str_nat (i + 1) @ lit '']: '' @ chunk)
          (enumerate 0 (map (\<lambda>(m, similarity). text m) search_results)))"

definition make_source :: "chunk_metadata \<times> real \<Rightarrow> source_chunk" where
  "make_source r =
     \<lparr>src_text = text (fst r), src_doc_id = doc_id (fst r), src_filename = filename (fst r),
      src_doc_type = doc_type (fst r), src_page_number = page_number (fst r),
      similarity_score = snd r\<rparr>"

text \<open>
  \<open>RAGEngine.query\<close>, with the calls it makes. An exception of \<open>search\<close> propagates; the
  embedding has been computed by then.
\<close>

definition query ::
  "rag_engine \<Rightarrow> str \<Rightarrow> str list option \<Rightarrow> int \<Rightarrow> (py_error + query_response) \<times> event list" where
  "query self qn doc_ids top_k =
     (let question_embedding = embed_text self qn
      in case search (index_search self) (vector_store self) question_embedding top_k doc_ids of
           Inl e \<Rightarrow> (Inl e, [EmbedCall qn])
         | Inr search_results \<Rightarrow>
             if search_results = [] then
               (Inr \<lparr>question = qn,
                     answer = lit ''I don'' @ [39] @ lit ''t have enough information to answer this question. Please upload relevant documents first.'',
                     sources = [], confidence = Some 0\<rparr>,
                [EmbedCall qn])
             else
               let sources = map make_source search_results;
                   context = source_context search_results;
                   answer = generate_answer self qn context;
                   avg_similarity = sum_list (map similarity_score sources) / real (length sources);
                   confidence = min (avg_similarity * 1.2) 1
               in (Inr \<lparr>question = qn, answer = answer, sources = sources,
                         confidence = Some confidence\<rparr>,
                   [EmbedCall qn, LLMCall (create_prompt qn context)]))"

text \<open>
  The endpoint \<open>query_documents\<close> of main.py: the blank-question check, then the engine.
  \<open>HTTPException 400\<close> is \<open>HTTPException(status_code=400, detail="Question cannot be
  empty")\<close>.
\<close>

definition query_documents ::
  "rag_engine \<Rightarrow> query_request \<Rightarrow> (py_error + query_response) \<times> event list" where
  "query_documents rag request =
     (if py_strip (req_question request) = [] then (Inl (HTTPException 400), [])
      else query rag (req_question request) (req_doc_ids request) (req_top_k request))"

text \<open>
  An engine for the examples: the example store searched exactly, a constant embedding, a
  backend that always fails and a regular expression search that finds nothing.
\<close>

definition example_engine :: rag_engine where
  "example_engine =
     \<lparr>vector_store = example_store, index_search = exact_search, embed_text = (\<lambda>t. [0, 0]),
      llm_generate = (\<lambda>p. Inl (Exception (lit ''Ollama request timed out.''))), re_search = (\<lambda>p s. None)\<rparr>"

section \<open>Facts about lists, \<open>split\<close> and \<open>join\<close>\<close>

lemma takeWhile_app_stop: "\<not> P s \<Longrightarrow> takeWhile P (xs @ s # ys) = takeWhile P xs"
  by (induction xs) auto

lemma dropWhile_app_stop: "\<not> P s \<Longrightarrow> dropWhile P (xs @ s # ys) = dropWhile P xs @ s # ys"
  by (induction xs) auto

lemma py_split_append_space:
  "isspace s \<Longrightarrow> py_split (a @ s # b) = py_split a @ py_split b"
proof (induction a rule: py_split.induct)
  case 1
  then show ?case by simp
next
  case (2 c cs)
  show ?case
  proof (cases "isspace c")
    case True
    with 2 show ?thesis by simp
  next
    case False
    with 2 show ?thesis
      by (simp add: takeWhile_app_stop dropWhile_app_stop)
  qed
qed

lemma space_is_space: "isspace 32"
  by (simp add: isspace_def)

lemma lit_space: "lit '' '' = [32]"
  by (simp add: lit_def)

lemma py_split_join: "py_split (py_join (lit '' '') xs) = concat (map py_split xs)"
proof (induction "lit '' ''" xs rule: py_join.induct)
  case 1
  then show ?case by simp
next
  case (2 x)
  then show ?case by simp
next
  case (3 x y ys)
  have "py_split (x @ 32 # py_join (lit '' '') (y # ys)) =
        py_split x @ py_split (py_join (lit '' '') (y # ys))"
    by (rule py_split_append_space [OF space_is_space])
  with 3 show ?case by (simp add: lit_space)
qed

lemma py_split_is_words:
  "w \<in> set (py_split s) \<Longrightarrow> w \<noteq> [] \<and> (\<forall>c \<in> set w. nonspace c)"
proof (induction s rule: py_split.induct)
  case 1
  then show ?case by simp
next
  case (2 c cs)
  show ?case
  proof (cases "isspace c")
    case True
    with 2 show ?thesis by simp
  next
    case False
    with "2.prems" have "w = c # takeWhile nonspace cs \<or> w \<in> set (py_split (dropWhile nonspace cs))"
      by simp
    then show ?thesis
    proof
      assume w: "w = c # takeWhile nonspace cs"
      have "\<forall>x \<in> set (takeWhile nonspace cs). nonspace x"
        by (blast dest: set_takeWhileD)
      with w False show ?thesis by simp
    next
      assume "w \<in> set (py_split (dropWhile nonspace cs))"
      with "2.IH"(2) False show ?thesis by blast
    qed
  qed
qed

lemma py_split_word:
  assumes "w \<noteq> []" and "\<forall>c \<in> set w. nonspace c"
  shows "py_split w = [w]"
proof (cases w)
  case Nil
  with assms show ?thesis by simp
next
  case (Cons a as)
  with assms have a: "nonspace a" and as: "\<forall>c \<in> set as. nonspace c" by auto
  from as have t: "takeWhile nonspace as = as" by (simp add: takeWhile_eq_all_conv)
  from as have d: "dropWhile nonspace as = []" by simp
  show ?thesis using a by (simp add: Cons t d)
qed

lemma concat_py_split_words:
  "\<forall>w \<in> set ws. w \<noteq> [] \<and> (\<forall>c \<in> set w. nonspace c) \<Longrightarrow> concat (map py_split ws) = ws"
  by (induction ws) (auto simp: py_split_word)

lemma py_split_join_words:
  "\<forall>w \<in> set ws. w \<noteq> [] \<and> (\<forall>c \<in> set w. nonspace c) \<Longrightarrow>
   py_split (py_join (lit '' '') ws) = ws"
  by (simp add: py_split_join concat_py_split_words)

lemma py_split_overlap_text:
  "py_split (py_join (lit '' '') (py_last_n k (py_split t))) = py_last_n k (py_split t)"
proof (rule py_split_join_words, rule ballI)
  fix w assume "w \<in> set (py_last_n k (py_split t))"
  then have "w \<in> set (py_split t)"
    unfolding py_last_n_def by (rule in_set_dropD)
  then show "w \<noteq> [] \<and> (\<forall>c \<in> set w. nonspace c)"
    by (rule py_split_is_words)
qed

lemma nth_filter_upt:
  "map ((!) xs) (filter (\<lambda>i. P (xs ! i)) [0..<length xs]) = filter P xs"
proof (induction xs rule: rev_induct)
  case Nil
  then show ?case by simp
next
  case (snoc x xs)
  let ?keep = "filter (\<lambda>i. P (xs ! i)) [0..<length xs]"
  have f: "filter (\<lambda>i. P ((xs @ [x]) ! i)) [0..<length xs] = ?keep"
    by (rule filter_cong) (simp_all add: nth_append)
  have m: "map ((!) (xs @ [x])) ?keep = map ((!) xs) ?keep"
    by (rule map_cong) (simp_all add: nth_append)
  have "map ((!) (xs @ [x])) (filter (\<lambda>i. P ((xs @ [x]) ! i)) [0..<length (xs @ [x])]) =
        map ((!) (xs @ [x])) ?keep @ (if P x then [x] else [])"
    by (simp add: f)
  also have "\<dots> = filter P xs @ (if P x then [x] else [])"
    by (simp only: m snoc.IH)
  also have "\<dots> = filter P (xs @ [x])"
    by simp
  finally show ?case .
qed

section \<open>Properties of the chunker\<close>

lemma chunk_loop_acc_indep:
  "fst (snd (chunk_loop self d f ty p ss chunks cur cwc idx)) =
   fst (snd (chunk_loop (self\<lparr>min_chunk_size := m\<rparr>) d' f' ty' p' ss chunks' cur cwc idx'))"
proof (induction ss arbitrary: chunks chunks' cur cwc idx idx')
  case Nil
  then show ?case by simp
next
  case (Cons s ss)
  show ?case
    by (simp add: Let_def Cons.IH del: py_join.simps)
qed


lemma make_chunk_text [simp]: "text (make_chunk d f ty p i t) = t"
  by (simp add: make_chunk_def)

lemma chunk_loop_texts_floor:
  assumes "map text chunks = filter (meets_floor self) (map text chunks0)"
  shows "map text (fst (chunk_loop self d f ty p ss chunks cur cwc idx)) =
         filter (meets_floor self)
           (map text (fst (chunk_loop (self\<lparr>min_chunk_size := 0\<rparr>) d f ty p ss chunks0 cur cwc idx0)))"
  using assms
proof (induction ss arbitrary: chunks chunks0 cur cwc idx idx0)
  case Nil
  then show ?case by simp
next
  case (Cons s ss)
  let ?t = "py_join (lit '' '') cur"
  have keep: "meets_floor self ?t \<Longrightarrow>
      map text (chunks @ [make_chunk d f ty p idx ?t]) =
      filter (meets_floor self) (map text (chunks0 @ [make_chunk d f ty p idx0 ?t]))"
    using Cons.prems by simp
  have skip: "\<not> meets_floor self ?t \<Longrightarrow>
      map text chunks =
      filter (meets_floor self) (map text (chunks0 @ [make_chunk d f ty p idx0 ?t]))"
    using Cons.prems by simp
  show ?case
  proof (cases "meets_floor self ?t")
    case True
    then have e: "min_chunk_size self \<le> int (length (py_split ?t))"
      by (simp add: meets_floor_def)
    show ?thesis
      using Cons.IH [OF keep [OF True]] Cons.IH [OF Cons.prems] e
      by (simp add: Let_def del: py_join.simps)
  next
    case False
    then have e: "\<not> min_chunk_size self \<le> int (length (py_split ?t))"
      by (simp add: meets_floor_def)
    show ?thesis
      using Cons.IH [OF skip [OF False]] Cons.IH [OF Cons.prems] e
      by (simp add: Let_def del: py_join.simps)
  qed
qed

lemma chunk_text_texts_floor:
  "map text (chunk_text self t d f ty p) =
   filter (meets_floor self) (map text (chunk_text (self\<lparr>min_chunk_size := 0\<rparr>) t d f ty p))"
proof -
  let ?ss = "split_into_sentences t"
  let ?r = "chunk_loop self d f ty p ?ss [] [] 0 0"
  let ?rz = "chunk_loop (self\<lparr>min_chunk_size := 0\<rparr>) d f ty p ?ss [] [] 0 0"
  have acc: "fst (snd ?r) = fst (snd ?rz)"
    by (rule chunk_loop_acc_indep)
  have tx: "map text (fst ?r) = filter (meets_floor self) (map text (fst ?rz))"
    by (rule chunk_loop_texts_floor) simp
  obtain cs c i where r: "?r = (cs, c, i)" by (cases ?r) auto
  obtain cs0 c0 i0 where r0: "?rz = (cs0, c0, i0)" by (cases ?rz) auto
  from acc r r0 have c: "c0 = c" by simp
  from tx r r0 have t: "map text cs = filter (meets_floor self) (map text cs0)" by simp
  show ?thesis
    unfolding chunk_text_def r r0 c
    using t by (simp add: Let_def meets_floor_def)
qed

lemma chunk_document_texts_floor:
  "map text (chunk_document self t d f ty pages) =
   filter (meets_floor self)
     (map text (chunk_document (self\<lparr>min_chunk_size := 0\<rparr>) t d f ty pages))"
proof -
  have pg: "map text (concat (map (\<lambda>pg. chunk_text self (page_text pg) d f ty (page_no pg)) ps)) =
        filter (meets_floor self)
          (map text (concat (map (\<lambda>pg. chunk_text (self\<lparr>min_chunk_size := 0\<rparr>)
             (page_text pg) d f ty (page_no pg)) ps)))" for ps
    by (induction ps) (simp_all add: chunk_text_texts_floor [symmetric])
  show ?thesis
  proof (cases pages)
    case None
    then show ?thesis by (simp add: chunk_document_def chunk_text_texts_floor [symmetric])
  next
    case (Some ps)
    show ?thesis
    proof (cases ps)
      case Nil
      with Some show ?thesis by (simp add: chunk_document_def chunk_text_texts_floor [symmetric])
    next
      case (Cons a as)
      with Some pg [of "a # as"] show ?thesis
        unfolding chunk_document_def by (simp del: map_concat)
    qed
  qed
qed


lemma seeded_emit:
  assumes "seeded k chunks cur"
  shows "successively (overlaps k) (map text (chunks @ [make_chunk d f ty p idx (py_join (lit '' '') cur)]))"
  using assms
  by (cases "chunks = []") (simp_all add: seeded_def successively_append_iff last_map)

lemma seeded_close:
  assumes "seeded k chunks cur"
  shows "seeded k (chunks @ [make_chunk d f ty p idx (py_join (lit '' '') cur)])
           [py_join (lit '' '') (py_last_n k (py_split (py_join (lit '' '') cur))), s]"
proof -
  have "py_split (py_join (lit '' '')
          [py_join (lit '' '') (py_last_n k (py_split (py_join (lit '' '') cur))), s]) =
        py_last_n k (py_split (py_join (lit '' '') cur)) @ py_split s"
  proof -
    have two: "py_split (py_join (lit '' '') [x, s]) = py_split x @ py_split s" for x
      by (simp only: py_split_join) simp
    show ?thesis
      by (simp only: two py_split_overlap_text)
  qed
  then show ?thesis
    using seeded_emit [OF assms] by (simp add: seeded_def overlaps_def)
qed

lemma seeded_append:
  assumes "seeded k chunks cur"
  shows "seeded k chunks (cur @ [s])"
proof -
  have "py_split (py_join (lit '' '') (cur @ [s])) = py_split (py_join (lit '' '') cur) @ py_split s"
    by (simp only: py_split_join) simp
  then show ?thesis
    using assms by (auto simp: seeded_def overlaps_def)
qed

lemma chunk_loop_seeded:
  assumes "0 < chunk_overlap self" and "min_chunk_size self \<le> 0"
    and "seeded (chunk_overlap self) chunks cur"
  shows "seeded (chunk_overlap self) (fst (chunk_loop self d f ty p ss chunks cur cwc idx))
           (fst (snd (chunk_loop self d f ty p ss chunks cur cwc idx)))"
  using assms(3)
proof (induction ss arbitrary: chunks cur cwc idx)
  case Nil
  then show ?case by simp
next
  case (Cons s ss)
  have e: "min_chunk_size self \<le> int (length (py_split (py_join (lit '' '') cur)))"
    using assms(2) by linarith
  show ?case
    using Cons.IH [OF seeded_close [OF Cons.prems]] Cons.IH [OF seeded_append [OF Cons.prems]]
      e assms(1)
    by (simp add: Let_def del: py_join.simps)
qed

lemma chunk_text_successive_overlap:
  assumes "0 < chunk_overlap self" and "min_chunk_size self \<le> 0"
  shows "successively (overlaps (chunk_overlap self)) (map text (chunk_text self t d f ty p))"
proof -
  let ?r = "chunk_loop self d f ty p (split_into_sentences t) [] [] 0 0"
  have "seeded (chunk_overlap self) [] []"
    by (simp add: seeded_def)
  then have sd: "seeded (chunk_overlap self) (fst ?r) (fst (snd ?r))"
    by (rule chunk_loop_seeded [OF assms])
  obtain cs c i where r: "?r = (cs, c, i)" by (cases ?r) auto
  have e: "min_chunk_size self \<le> int (length (py_split (py_join (lit '' '') c)))"
    using assms(2) by linarith
  from sd r have sd': "seeded (chunk_overlap self) cs c" by simp
  show ?thesis
    unfolding chunk_text_def r
    using seeded_emit [OF sd', of d f ty p i] sd' e
    by (simp add: Let_def seeded_def)
qed


text \<open>
  Within one run of \<open>_chunk_text\<close> the emitted chunks are numbered \<open>0, 1, 2, ...\<close> without
  gaps, so a document chunked as a whole has one index, and one identifier, per chunk.
\<close>

lemma make_chunk_index [simp]: "chunk_index (make_chunk d f ty p i t) = i"
  by (simp add: make_chunk_def)

lemma chunk_loop_indices:
  assumes "map chunk_index chunks = [0..<idx]"
  shows "map chunk_index (fst (chunk_loop self d f ty p ss chunks cur cwc idx)) =
         [0..<snd (snd (chunk_loop self d f ty p ss chunks cur cwc idx))]"
  using assms
proof (induction ss arbitrary: chunks cur cwc idx)
  case Nil
  then show ?case by simp
next
  case (Cons s ss)
  have grown: "map chunk_index (chunks @ [make_chunk d f ty p idx (py_join (lit '' '') cur)]) =
               [0..<Suc idx]"
    using Cons.prems by simp
  show ?case
    using Cons.IH [OF grown] Cons.IH [OF Cons.prems]
    by (simp add: Let_def del: py_join.simps upt_Suc)
qed

lemma chunk_text_indices:
  "map chunk_index (chunk_text self t d f ty p) = [0..<length (chunk_text self t d f ty p)]"
proof -
  let ?r = "chunk_loop self d f ty p (split_into_sentences t) [] [] 0 0"
  obtain cs c i where r: "?r = (cs, c, i)" by (cases ?r) auto
  have "map chunk_index (fst ?r) = [0..<snd (snd ?r)]"
    by (rule chunk_loop_indices) simp
  with r have cs: "map chunk_index cs = [0..<i]" by simp
  then have "length (map chunk_index cs) = i" by simp
  then have len: "length cs = i" by simp
  show ?thesis
    unfolding chunk_text_def r using cs len by (simp add: Let_def)
qed

text \<open>The definitions unfolded when the chunker is run on a concrete text.\<close>

lemmas chunker_eval =
  chunk_document_def chunk_text_def split_into_sentences_def sentence_break_def lit_def
  isspace_def py_strip_def make_chunk_def py_str_nat.simps py_last_n_def

text \<open>
  Claim C1 (chunk identifiers are unique across the pages of one call). A document of two
  pages, each giving one chunk: \<open>_chunk_text\<close> starts its counter at \<open>0\<close> for every page, so
  both chunks get the identifier \<open>d_chunk_0\<close> and the index \<open>0\<close>. The identifiers are not
  unique within the call and the indices are not strictly increasing.
\<close>

theorem chunk_ids_repeat_across_pages:
  "map (\<lambda>c. (chunk_id c, chunk_index c, page_number c))
     (chunk_document \<lparr>chunk_size = 3, chunk_overlap = 0, min_chunk_size = 1\<rparr>
        (lit ''Aa bb. Cc dd.'') (lit ''d'') (lit ''f.pdf'') (lit ''policy'')
        (Some [\<lparr>page_no = Some 1, page_text = lit ''Aa bb.''\<rparr>,
               \<lparr>page_no = Some 2, page_text = lit ''Cc dd.''\<rparr>])) =
   [(lit ''d_chunk_0'', 0, Some 1), (lit ''d_chunk_0'', 0, Some 2)]"
  by (simp add: chunker_eval)

text \<open>
  Claim C2 (chunk size floor). Every chunk that \<open>chunk_document\<close> emits has at least
  \<open>min_chunk_size\<close> words. The groups below the floor are dropped and nothing else changes:
  the emitted texts are the texts that the same call emits with the floor set to \<open>0\<close>
  (where every closed group and every final flush is emitted), in the same order, without
  those that have fewer than \<open>min_chunk_size\<close> words.
\<close>

theorem chunk_size_floor:
  "(\<forall>c \<in> set (chunk_document self t d f ty pages).
      min_chunk_size self \<le> int (length (py_split (text c)))) \<and>
   map text (chunk_document self t d f ty pages) =
     filter (\<lambda>g. min_chunk_size self \<le> int (length (py_split g)))
       (map text (chunk_document (self\<lparr>min_chunk_size := 0\<rparr>) t d f ty pages))"
proof -
  have eq: "map text (chunk_document self t d f ty pages) =
     filter (\<lambda>g. min_chunk_size self \<le> int (length (py_split g)))
       (map text (chunk_document (self\<lparr>min_chunk_size := 0\<rparr>) t d f ty pages))"
    using chunk_document_texts_floor [of self t d f ty pages]
    by (simp add: meets_floor_def [abs_def])
  have "\<forall>g \<in> set (map text (chunk_document self t d f ty pages)).
          min_chunk_size self \<le> int (length (py_split g))"
    by (subst eq) simp
  then have fl: "\<forall>c \<in> set (chunk_document self t d f ty pages).
          min_chunk_size self \<le> int (length (py_split (text c)))"
    by simp
  from fl eq show ?thesis by (rule conjI)
qed

text \<open>
  The floor at work: of the three groups closed on this text, the middle one has two words
  and is dropped.
\<close>

theorem chunk_size_floor_witness:
  "map text (chunk_document \<lparr>chunk_size = 3, chunk_overlap = 1, min_chunk_size = 3\<rparr>
      (lit ''A b c. D. E f g.'') (lit ''d'') (lit ''f.pdf'') (lit ''policy'') None) =
     [lit ''A b c.'', lit ''D. E f g.''] \<and>
   map text (chunk_document \<lparr>chunk_size = 3, chunk_overlap = 1, min_chunk_size = 0\<rparr>
      (lit ''A b c. D. E f g.'') (lit ''d'') (lit ''f.pdf'') (lit ''policy'') None) =
     [lit ''A b c.'', lit ''c. D.'', lit ''D. E f g.''] \<and>
   map (\<lambda>c. length (py_split (text c)))
     (chunk_document \<lparr>chunk_size = 3, chunk_overlap = 1, min_chunk_size = 3\<rparr>
        (lit ''A b c. D. E f g.'') (lit ''d'') (lit ''f.pdf'') (lit ''policy'') None) = [3, 4]"
  using chunk_size_floor [of "\<lparr>chunk_size = 3, chunk_overlap = 1, min_chunk_size = 3\<rparr>"
      "lit ''A b c. D. E f g.''" "lit ''d''" "lit ''f.pdf''" "lit ''policy''" None]
  by (simp add: chunker_eval)

text \<open>
  The emitted chunks are the closed groups at the positions \<open>emitted_groups\<close>, and two
  groups closed one after the other always overlap.
\<close>

lemma emitted_groups_texts:
  "map (\<lambda>j. text (groups ! j)) (emitted_groups self groups) =
   filter (meets_floor self) (map text groups)"
proof -
  let ?ts = "map text groups"
  have eg: "emitted_groups self groups = filter (\<lambda>j. meets_floor self (?ts ! j)) [0..<length ?ts]"
    unfolding emitted_groups_def by (rule filter_cong) simp_all
  have "map (\<lambda>j. text (groups ! j)) (emitted_groups self groups) =
        map ((!) ?ts) (emitted_groups self groups)"
    by (rule map_cong) (simp_all add: emitted_groups_def)
  also have "\<dots> = filter (meets_floor self) ?ts"
    unfolding eg by (rule nth_filter_upt)
  finally show ?thesis .
qed

lemma emitted_groups_bound:
  "i < length (emitted_groups self groups) \<Longrightarrow> emitted_groups self groups ! i < length groups"
proof -
  assume "i < length (emitted_groups self groups)"
  then have "emitted_groups self groups ! i \<in> set (emitted_groups self groups)"
    by (rule nth_mem)
  then show ?thesis by (simp add: emitted_groups_def)
qed

lemma chunk_text_emitted_groups:
  "map text (chunk_text self t d f ty p) =
   map (\<lambda>j. text (chunk_text (self\<lparr>min_chunk_size := 0\<rparr>) t d f ty p ! j))
     (emitted_groups self (chunk_text (self\<lparr>min_chunk_size := 0\<rparr>) t d f ty p))"
  by (simp only: emitted_groups_texts chunk_text_texts_floor [symmetric])

lemma closed_groups_overlap:
  assumes "0 < chunk_overlap self"
    and "Suc j < length (chunk_text (self\<lparr>min_chunk_size := 0\<rparr>) t d f ty p)"
  shows "prefix (py_last_n (chunk_overlap self)
                  (py_split (text (chunk_text (self\<lparr>min_chunk_size := 0\<rparr>) t d f ty p ! j))))
           (py_split (text (chunk_text (self\<lparr>min_chunk_size := 0\<rparr>) t d f ty p ! Suc j)))"
proof -
  let ?gs = "chunk_text (self\<lparr>min_chunk_size := 0\<rparr>) t d f ty p"
  have "successively (overlaps (chunk_overlap (self\<lparr>min_chunk_size := 0\<rparr>))) (map text ?gs)"
    by (rule chunk_text_successive_overlap) (simp_all add: assms(1))
  then have "successively (overlaps (chunk_overlap self)) (map text ?gs)"
    by simp
  then have "overlaps (chunk_overlap self) (map text ?gs ! j) (map text ?gs ! Suc j)"
    using assms(2) by (simp add: successively_conv_nth)
  then show ?thesis
    using assms(2) by (simp add: overlaps_def)
qed

text \<open>
  Claim C3, amended (overlap between consecutive chunks). In one run of \<open>_chunk_text\<close> (the
  whole text, or one page) with \<open>chunk_overlap = k > 0\<close>: the last \<open>k\<close> words of every closed
  group (all its words when it has fewer than \<open>k\<close>) are the first words of the group closed
  next, whether or not either is emitted; so for two chunks emitted one after the other with
  no dropped group between them, that is when the second is the group closed right after
  the first, the last \<open>k\<close> words of the first are the first words of the second.
\<close>

theorem overlap_between_consecutive_chunks:
  fixes self :: text_chunker and t d f ty :: str and p :: "int option"
  defines "groups \<equiv> chunk_text (self\<lparr>min_chunk_size := 0\<rparr>) t d f ty p"
    and "chunks \<equiv> chunk_text self t d f ty p"
  assumes "0 < chunk_overlap self"
  shows "(\<forall>j. Suc j < length groups \<longrightarrow>
            prefix (py_last_n (chunk_overlap self) (py_split (text (groups ! j))))
              (py_split (text (groups ! Suc j)))) \<and>
         (\<forall>i. Suc i < length chunks \<and>
              emitted_groups self groups ! Suc i = Suc (emitted_groups self groups ! i) \<longrightarrow>
            text (chunks ! i) = text (groups ! (emitted_groups self groups ! i)) \<and>
            text (chunks ! Suc i) = text (groups ! Suc (emitted_groups self groups ! i)) \<and>
            prefix (py_last_n (chunk_overlap self) (py_split (text (chunks ! i))))
              (py_split (text (chunks ! Suc i))))"
proof (intro conjI allI impI)
  fix j assume "Suc j < length groups"
  then show "prefix (py_last_n (chunk_overlap self) (py_split (text (groups ! j))))
              (py_split (text (groups ! Suc j)))"
    unfolding groups_def by (rule closed_groups_overlap [OF assms(3)])
next
  fix i
  assume a: "Suc i < length chunks \<and>
             emitted_groups self groups ! Suc i = Suc (emitted_groups self groups ! i)"
  let ?eg = "emitted_groups self groups"
  have m: "map text chunks = map (\<lambda>j. text (groups ! j)) ?eg"
    unfolding groups_def chunks_def by (rule chunk_text_emitted_groups)
  then have "length (map text chunks) = length (map (\<lambda>j. text (groups ! j)) ?eg)"
    by simp
  then have len: "length chunks = length ?eg" by simp
  have nth: "text (chunks ! n) = text (groups ! (?eg ! n))" if "n < length chunks" for n
  proof -
    have "map text chunks ! n = map (\<lambda>j. text (groups ! j)) ?eg ! n"
      by (simp only: m)
    with that len show ?thesis by simp
  qed
  from a have i0: "i < length chunks" and i1: "Suc i < length chunks"
    and step: "?eg ! Suc i = Suc (?eg ! i)"
    by simp_all
  have "?eg ! Suc i < length groups"
    using i1 len by (simp add: emitted_groups_bound)
  with step have b: "Suc (?eg ! i) < length groups" by simp
  have ov: "prefix (py_last_n (chunk_overlap self) (py_split (text (groups ! (?eg ! i)))))
              (py_split (text (groups ! Suc (?eg ! i))))"
    using b unfolding groups_def by (rule closed_groups_overlap [OF assms(3)])
  show t0: "text (chunks ! i) = text (groups ! (?eg ! i))"
    by (rule nth [OF i0])
  show t1: "text (chunks ! Suc i) = text (groups ! Suc (?eg ! i))"
    using nth [OF i1] step by simp
  show "prefix (py_last_n (chunk_overlap self) (py_split (text (chunks ! i))))
          (py_split (text (chunks ! Suc i)))"
    using ov t0 t1 by simp
qed

text \<open>
  Three sentences with a budget of three words: the first two groups are emitted one after
  the other and overlap in \<open>c.\<close>; only the final flush \<open>f. G.\<close> is dropped.
\<close>

theorem overlap_between_consecutive_chunks_witness:
  "0 < chunk_overlap \<lparr>chunk_size = 3, chunk_overlap = 1, min_chunk_size = 3\<rparr> \<and>
   map text (chunk_text \<lparr>chunk_size = 3, chunk_overlap = 1, min_chunk_size = 0\<rparr>
      (lit ''A b c. D e f. G.'') (lit ''d'') (lit ''f.pdf'') (lit ''policy'') None) =
     [lit ''A b c.'', lit ''c. D e f.'', lit ''f. G.''] \<and>
   map text (chunk_text \<lparr>chunk_size = 3, chunk_overlap = 1, min_chunk_size = 3\<rparr>
      (lit ''A b c. D e f. G.'') (lit ''d'') (lit ''f.pdf'') (lit ''policy'') None) =
     [lit ''A b c.'', lit ''c. D e f.''] \<and>
   emitted_groups \<lparr>chunk_size = 3, chunk_overlap = 1, min_chunk_size = 3\<rparr>
     (chunk_text \<lparr>chunk_size = 3, chunk_overlap = 1, min_chunk_size = 0\<rparr>
        (lit ''A b c. D e f. G.'') (lit ''d'') (lit ''f.pdf'') (lit ''policy'') None) = [0, 1] \<and>
   py_last_n 1 (py_split (lit ''A b c.'')) = [lit ''c.''] \<and>
   prefix [lit ''c.''] (py_split (lit ''c. D e f.''))"
  using overlap_between_consecutive_chunks
    [of "\<lparr>chunk_size = 3, chunk_overlap = 1, min_chunk_size = 3\<rparr>"
      "lit ''A b c. D e f. G.''" "lit ''d''" "lit ''f.pdf''" "lit ''policy''" None]
  by (simp add: chunker_eval emitted_groups_def meets_floor_def)

text \<open>
  Claim C3 as stated fails in two ways. When a group between two emitted chunks is dropped
  by the floor, the overlap is taken from the dropped group: the first chunk ends with \<open>c.\<close>
  and the next emitted chunk starts with \<open>D.\<close>. And two consecutive chunks of one document
  that come from different pages share nothing: every page is a run of its own.
\<close>

theorem overlap_lost_after_dropped_group:
  "map text (chunk_document \<lparr>chunk_size = 3, chunk_overlap = 1, min_chunk_size = 3\<rparr>
      (lit ''A b c. D. E f g.'') (lit ''d'') (lit ''f.pdf'') (lit ''policy'') None) =
     [lit ''A b c.'', lit ''D. E f g.''] \<and>
   py_last_n 1 (py_split (lit ''A b c.'')) = [lit ''c.''] \<and>
   take 1 (py_split (lit ''D. E f g.'')) = [lit ''D.''] \<and>
   \<not> prefix (py_last_n 1 (py_split (lit ''A b c.''))) (py_split (lit ''D. E f g.'')) \<and>
   map text (chunk_document \<lparr>chunk_size = 3, chunk_overlap = 1, min_chunk_size = 3\<rparr>
      (lit ''A b c. D e f.'') (lit ''d'') (lit ''f.pdf'') (lit ''policy'')
      (Some [\<lparr>page_no = Some 1, page_text = lit ''A b c.''\<rparr>,
             \<lparr>page_no = Some 2, page_text = lit ''D e f.''\<rparr>])) =
     [lit ''A b c.'', lit ''D e f.''] \<and>
   \<not> prefix (py_last_n 1 (py_split (lit ''A b c.''))) (py_split (lit ''D e f.''))"
  by (simp add: chunker_eval)

section \<open>Properties of the vector store\<close>

lemma store_ok_init: "store_ok (VectorStore_init dm)"
  by (simp add: store_ok_def VectorStore_init_def IndexFlatL2_def ntotal_def)

lemma add_embeddings_raises_iff:
  "isl (fst (add_embeddings self embeddings chunks)) \<longleftrightarrow>
     length (arows embeddings) \<noteq> length chunks \<or> ncols embeddings \<noteq> index_d (index self)"
  by (simp add: add_embeddings_def faiss_add_def)

lemma add_embeddings_raise_unchanged:
  "isl (fst (add_embeddings self embeddings chunks)) \<Longrightarrow>
   snd (add_embeddings self embeddings chunks) = self"
  by (simp add: add_embeddings_def faiss_add_def split: if_splits)

lemma add_embeddings_store_ok:
  "store_ok self \<Longrightarrow> store_ok (snd (add_embeddings self embeddings chunks))"
  by (simp add: add_embeddings_def faiss_add_def store_ok_def ntotal_def)

lemma reconstruct_all_ok:
  "\<forall>i \<in> set rows. i < ntotal ix \<Longrightarrow> reconstruct_all ix rows = Inr (map ((!) (xb ix)) rows)"
  by (induction rows) (simp_all add: faiss_reconstruct_def)


lemma length_filter_full:
  "length (filter P xs) = length xs \<longleftrightarrow> filter (\<lambda>x. \<not> P x) xs = []"
  using sum_length_filter_compl [of P xs] by auto

lemma zip_map_same: "zip (map f ks) (map g ks) = map (\<lambda>k. (f k, g k)) ks"
  by (induction ks) simp_all

lemma keep_rows_zip:
  assumes "length md = length vs"
  shows "zip (map ((!) md) (filter (\<lambda>i. P (md ! i)) [0..<length md]))
             (map ((!) vs) (filter (\<lambda>i. P (md ! i)) [0..<length md])) =
         filter (\<lambda>(m, v). P m) (zip md vs)"
proof -
  let ?z = "zip md vs"
  let ?keep = "filter (\<lambda>i. P (md ! i)) [0..<length md]"
  have len: "length ?z = length md" using assms by simp
  have k: "?keep = filter (\<lambda>i. (\<lambda>(m, v). P m) (?z ! i)) [0..<length ?z]"
    unfolding len by (rule filter_cong) (simp_all add: assms)
  have "zip (map ((!) md) ?keep) (map ((!) vs) ?keep) = map (\<lambda>i. (md ! i, vs ! i)) ?keep"
    by (rule zip_map_same)
  also have "\<dots> = map ((!) ?z) ?keep"
    by (rule map_cong) (simp_all add: assms)
  also have "\<dots> = filter (\<lambda>(m, v). P m) ?z"
    by (subst k) (rule nth_filter_upt)
  finally show ?thesis .
qed

lemma delete_document_unchanged:
  assumes "get_chunks_by_doc_id self d = []"
  shows "delete_document self d = (Inr (), self)"
proof -
  have "map ((!) (metadata self))
          (filter (\<lambda>i. doc_id (metadata self ! i) \<noteq> d) [0..<length (metadata self)]) =
        filter (\<lambda>m. doc_id m \<noteq> d) (metadata self)"
    by (rule nth_filter_upt)
  then have "length (filter (\<lambda>i. doc_id (metadata self ! i) \<noteq> d) [0..<length (metadata self)]) =
        length (filter (\<lambda>m. doc_id m \<noteq> d) (metadata self))"
    by (metis length_map)
  also have "\<dots> = length (metadata self)"
    using assms by (simp add: length_filter_full get_chunks_by_doc_id_def)
  finally show ?thesis
    by (simp add: delete_document_def)
qed

lemma delete_document_changed:
  assumes "store_ok self" and "get_chunks_by_doc_id self d \<noteq> []"
  shows "delete_document self d =
     (Inr (), self\<lparr>index := \<lparr>index_d = embedding_dim self,
                              xb = map ((!) (xb (index self)))
                                     (filter (\<lambda>i. doc_id (metadata self ! i) \<noteq> d)
                                        [0..<length (metadata self)])\<rparr>,
                  metadata := map ((!) (metadata self))
                                (filter (\<lambda>i. doc_id (metadata self ! i) \<noteq> d)
                                   [0..<length (metadata self)])\<rparr>)"
proof -
  let ?keep = "filter (\<lambda>i. doc_id (metadata self ! i) \<noteq> d) [0..<length (metadata self)]"
  have "map ((!) (metadata self)) ?keep = filter (\<lambda>m. doc_id m \<noteq> d) (metadata self)"
    by (rule nth_filter_upt)
  then have "length ?keep = length (filter (\<lambda>m. doc_id m \<noteq> d) (metadata self))"
    by (metis length_map)
  then have ne: "length ?keep \<noteq> length (metadata self)"
    using assms(2) by (simp add: length_filter_full get_chunks_by_doc_id_def)
  have "\<forall>i \<in> set ?keep. i < ntotal (index self)"
    using assms(1) by (simp add: store_ok_def)
  then have rec: "reconstruct_all (index self) ?keep = Inr (map ((!) (xb (index self))) ?keep)"
    by (rule reconstruct_all_ok)
  have d: "index_d (index self) = embedding_dim self"
    using assms(1) by (simp add: store_ok_def)
  show ?thesis
  proof (cases "?keep = []")
    case True
    with ne show ?thesis
      by (simp add: delete_document_def IndexFlatL2_def Let_def)
  next
    case False
    with ne rec d show ?thesis
      by (simp add: delete_document_def IndexFlatL2_def faiss_add_def Let_def)
  qed
qed

lemma delete_document_store_ok:
  assumes "store_ok self"
  shows "store_ok (snd (delete_document self d))"
proof (cases "get_chunks_by_doc_id self d = []")
  case True
  with assms show ?thesis by (simp add: delete_document_unchanged)
next
  case False
  with assms show ?thesis
    by (simp add: delete_document_changed store_ok_def ntotal_def)
qed


text \<open>The definitions unfolded when the store is run on a concrete input.\<close>

lemmas store_eval =
  example_store_def example_chunk_def make_chunk_def py_str_nat.simps lit_def
  VectorStore_init_def IndexFlatL2_def ntotal_def store_ok_def total_chunks_def
  add_embeddings_def faiss_add_def delete_document_def faiss_reconstruct_def
  get_chunks_by_doc_id_def search_def exact_search_def sqdist_def truthy_def py_in_def
  py_nth_def py_get_def

text \<open>
  Claim C4 (dimension mismatch on add). On a store whose index has the configured dimension,
  \<open>add_embeddings\<close> raises exactly when the number of rows differs from the number of
  chunks or the width of the array differs from \<open>embedding_dim\<close>; when it raises, the store
  (index rows and metadata) is what it was before the call.
\<close>

theorem add_embeddings_dimension_mismatch:
  assumes "index_d (index self) = embedding_dim self"
  shows "(isl (fst (add_embeddings self embeddings chunks)) \<longleftrightarrow>
            length (arows embeddings) \<noteq> length chunks \<or> ncols embeddings \<noteq> embedding_dim self) \<and>
         (isl (fst (add_embeddings self embeddings chunks)) \<longrightarrow>
            snd (add_embeddings self embeddings chunks) = self)"
  using assms add_embeddings_raises_iff [of self embeddings chunks]
    add_embeddings_raise_unchanged [of self embeddings chunks]
  by simp

text \<open>Three vectors with two chunks, and two vectors of the wrong width, on a new store.\<close>

theorem add_embeddings_dimension_mismatch_witness:
  "index_d (index (VectorStore_init 2)) = embedding_dim (VectorStore_init 2) \<and>
   add_embeddings (VectorStore_init 2) \<lparr>ncols = 2, arows = [[1, 0], [0, 1], [1, 1]]\<rparr>
     [example_chunk ''a'' 0, example_chunk ''a'' 1] = (Inl ValueError, VectorStore_init 2) \<and>
   add_embeddings (VectorStore_init 2) \<lparr>ncols = 3, arows = [[1, 0, 0], [0, 1, 0]]\<rparr>
     [example_chunk ''a'' 0, example_chunk ''a'' 1] = (Inl AssertionError, VectorStore_init 2) \<and>
   isl (fst (add_embeddings (VectorStore_init 2) \<lparr>ncols = 2, arows = [[1, 0], [0, 1], [1, 1]]\<rparr>
     [example_chunk ''a'' 0, example_chunk ''a'' 1]))"
  using add_embeddings_dimension_mismatch [of "VectorStore_init 2"
      "\<lparr>ncols = 2, arows = [[1, 0], [0, 1], [1, 1]]\<rparr>"
      "[example_chunk ''a'' 0, example_chunk ''a'' 1]"]
  by (simp add: store_eval)

text \<open>
  Claim C5 (delete completeness). On a store that satisfies its invariant,
  \<open>delete_document\<close> returns normally; afterwards the document has no chunks, the number
  of rows has gone down by the number of chunks the document had, the remaining
  (metadata, vector) pairs are the old pairs of the other documents in their old order, the
  metadata list is as long as the index, and a document without chunks leaves the store
  unchanged.
\<close>

theorem delete_document_complete:
  assumes "store_ok self"
  shows "fst (delete_document self d) = Inr () \<and>
     get_chunks_by_doc_id (snd (delete_document self d)) d = [] \<and>
     total_chunks (snd (delete_document self d)) + length (get_chunks_by_doc_id self d) =
       total_chunks self \<and>
     zip (metadata (snd (delete_document self d))) (xb (index (snd (delete_document self d)))) =
       filter (\<lambda>(m, v). doc_id m \<noteq> d) (zip (metadata self) (xb (index self))) \<and>
     length (metadata (snd (delete_document self d))) =
       ntotal (index (snd (delete_document self d))) \<and>
     (get_chunks_by_doc_id self d = [] \<longrightarrow> snd (delete_document self d) = self)"
proof (cases "get_chunks_by_doc_id self d = []")
  case True
  then have all: "\<forall>m \<in> set (metadata self). doc_id m \<noteq> d"
    by (simp add: get_chunks_by_doc_id_def filter_empty_conv)
  then have "\<forall>z \<in> set (zip (metadata self) (xb (index self))). (\<lambda>(m, v). doc_id m \<noteq> d) z"
    by (auto dest: set_zip_leftD)
  then have "filter (\<lambda>(m, v). doc_id m \<noteq> d) (zip (metadata self) (xb (index self))) =
             zip (metadata self) (xb (index self))"
    by (simp only: filter_True)
  with True assms show ?thesis
    by (simp add: delete_document_unchanged store_ok_def total_chunks_def)
next
  case False
  let ?keep = "filter (\<lambda>i. doc_id (metadata self ! i) \<noteq> d) [0..<length (metadata self)]"
  have len: "length (metadata self) = length (xb (index self))"
    using assms by (simp add: store_ok_def ntotal_def)
  have md: "map ((!) (metadata self)) ?keep = filter (\<lambda>m. doc_id m \<noteq> d) (metadata self)"
    by (rule nth_filter_upt)
  then have lk: "length ?keep = length (filter (\<lambda>m. doc_id m \<noteq> d) (metadata self))"
    by (metis length_map)
  have cnt: "length ?keep + length (get_chunks_by_doc_id self d) = length (xb (index self))"
    using sum_length_filter_compl [of "\<lambda>m. doc_id m = d" "metadata self"] lk len
    by (simp add: get_chunks_by_doc_id_def)
  have gone: "filter (\<lambda>m. doc_id m = d) (map ((!) (metadata self)) ?keep) = []"
    by (simp only: md) (simp add: filter_empty_conv)
  have z: "zip (map ((!) (metadata self)) ?keep) (map ((!) (xb (index self))) ?keep) =
           filter (\<lambda>(m, v). doc_id m \<noteq> d) (zip (metadata self) (xb (index self)))"
    by (rule keep_rows_zip [OF len])
  show ?thesis
    unfolding delete_document_changed [OF assms False]
    using False gone cnt z
    by (simp add: get_chunks_by_doc_id_def total_chunks_def ntotal_def)
qed

text \<open>Deleting document \<open>a\<close> from the example store leaves the one row of document \<open>b\<close>.\<close>

theorem delete_document_complete_witness:
  "store_ok example_store \<and>
   delete_document example_store (lit ''a'') =
     (Inr (), \<lparr>embedding_dim = 2, index = \<lparr>index_d = 2, xb = [[3, 4]]\<rparr>,
               metadata = [example_chunk ''b'' 0]\<rparr>) \<and>
   length (get_chunks_by_doc_id example_store (lit ''a'')) = 2 \<and>
   total_chunks example_store = 3 \<and>
   total_chunks (snd (delete_document example_store (lit ''a''))) = 1"
  using delete_document_complete [of example_store "lit ''a''"]
  by (simp add: store_eval)

section \<open>Properties of \<open>search\<close>\<close>

text \<open>
  The loop on a list of hits none of whose labels raises: it returns the first
  \<open>top_k\<close> kept hits (the first one when \<open>top_k < 1\<close>, since the test comes after the append).
\<close>

lemma py_nth_in_range:
  "- int (length xs) \<le> i \<Longrightarrow> i < int (length xs) \<Longrightarrow> py_nth xs i = Inr (py_get xs i)"
  by (simp add: py_nth_def)

lemma py_get_nonneg: "0 \<le> i \<Longrightarrow> py_get xs i = xs ! nat i"
  by (simp add: py_get_def)

lemma search_loop_skip:
  assumes "- int (length (metadata self)) \<le> snd h" and "\<not> hit_kept self ids h"
  shows "search_loop self top_k ids (h # hits) acc = search_loop self top_k ids hits acc"
proof (cases h)
  case (Pair dst idx)
  show ?thesis
  proof (cases "idx < int (length (metadata self))")
    case False
    with Pair show ?thesis by simp
  next
    case True
    with assms Pair have "py_nth (metadata self) idx = Inr (py_get (metadata self) idx)"
      by (simp add: py_nth_in_range)
    with assms(2) Pair True show ?thesis
      by (simp add: hit_kept_def)
  qed
qed

lemma search_loop_keep:
  assumes "- int (length (metadata self)) \<le> snd h" and "hit_kept self ids h"
  shows "search_loop self top_k ids (h # hits) acc =
     (if int (length (acc @ [hit_result self h])) \<ge> top_k then Inr (acc @ [hit_result self h])
      else search_loop self top_k ids hits (acc @ [hit_result self h]))"
proof (cases h)
  case (Pair dst idx)
  from assms(2) Pair have lt: "idx < int (length (metadata self))"
    by (simp add: hit_kept_def)
  with assms(1) Pair have "py_nth (metadata self) idx = Inr (py_get (metadata self) idx)"
    by (simp add: py_nth_in_range)
  with assms(2) Pair lt show ?thesis
    by (auto simp: hit_kept_def hit_result_def Let_def)
qed

lemma search_loop_take:
  assumes "\<forall>h \<in> set hits. - int (length (metadata self)) \<le> snd h"
    and "int (length acc) < max 1 top_k"
  shows "search_loop self top_k ids hits acc =
     Inr (take (nat (max 1 top_k)) (acc @ map (hit_result self) (filter (hit_kept self ids) hits)))"
  using assms
proof (induction hits arbitrary: acc)
  case Nil
  then show ?case by simp
next
  case (Cons h hits)
  from Cons.prems(1) have h: "- int (length (metadata self)) \<le> snd h"
    and rest: "\<forall>h \<in> set hits. - int (length (metadata self)) \<le> snd h"
    by simp_all
  show ?case
  proof (cases "hit_kept self ids h")
    case False
    then show ?thesis
      using Cons.IH [OF rest Cons.prems(2)] by (simp add: search_loop_skip [OF h])
  next
    case True
    let ?acc = "acc @ [hit_result self h]"
    let ?rest = "map (hit_result self) (filter (hit_kept self ids) hits)"
    have rhs: "acc @ map (hit_result self) (filter (hit_kept self ids) (h # hits)) = ?acc @ ?rest"
      using True by simp
    show ?thesis
    proof (cases "int (length ?acc) \<ge> top_k")
      case full: True
      with Cons.prems(2) have "nat (max 1 top_k) = length ?acc" by simp
      then have "take (nat (max 1 top_k)) (?acc @ ?rest) = ?acc"
        by simp
      then show ?thesis
        unfolding rhs search_loop_keep [OF h True] using full by simp
    next
      case more: False
      then have "int (length ?acc) < max 1 top_k" by simp
      from Cons.IH [OF rest this] show ?thesis
        unfolding rhs search_loop_keep [OF h True] using more by simp
    qed
  qed
qed

lemma search_loop_filtered:
  assumes "search_loop self top_k ids hits acc = Inr rs"
    and "\<forall>r \<in> set acc. truthy ids \<longrightarrow> py_in (doc_id (fst r)) ids"
  shows "\<forall>r \<in> set rs. truthy ids \<longrightarrow> py_in (doc_id (fst r)) ids"
  using assms
proof (induction hits arbitrary: acc)
  case Nil
  then show ?case by simp
next
  case (Cons h hits)
  obtain dst idx where h: "h = (dst, idx)" by (cases h) auto
  show ?case
  proof (cases "idx < int (length (metadata self))")
    case False
    with Cons h show ?thesis by simp
  next
    case True
    show ?thesis
    proof (cases "py_nth (metadata self) idx")
      case (Inl e)
      with Cons.prems(1) h True show ?thesis by simp
    next
      case (Inr m)
      show ?thesis
      proof (cases "truthy ids \<and> \<not> py_in (doc_id m) ids")
        case True
        with Cons h Inr \<open>idx < int (length (metadata self))\<close> show ?thesis by simp
      next
        case False
        then have acc': "\<forall>r \<in> set (acc @ [(m, 1 / (1 + dst))]). truthy ids \<longrightarrow> py_in (doc_id (fst r)) ids"
          using Cons.prems(2) by auto
        show ?thesis
        proof (cases "int (length (acc @ [(m, 1 / (1 + dst))])) \<ge> top_k")
          case True
          with Cons.prems(1) h Inr False \<open>idx < int (length (metadata self))\<close>
          have "rs = acc @ [(m, 1 / (1 + dst))]"
            by (simp add: Let_def)
          with acc' show ?thesis by simp
        next
          case more: False
          with Cons.prems(1) h Inr False \<open>idx < int (length (metadata self))\<close>
          have "search_loop self top_k ids hits (acc @ [(m, 1 / (1 + dst))]) = Inr rs"
            by (simp add: Let_def)
          from Cons.IH [OF this acc'] show ?thesis .
        qed
      qed
    qed
  qed
qed

lemma search_loop_falsy:
  "\<not> truthy a \<Longrightarrow> \<not> truthy b \<Longrightarrow>
   search_loop self top_k a hits acc = search_loop self top_k b hits acc"
  by (induction hits arbitrary: acc) (auto simp: Let_def split: sum.splits)

lemma search_empty_index:
  "ntotal (index self) = 0 \<Longrightarrow> search lib self q top_k doc_ids = Inr []"
  by (simp add: search_def)

lemma search_nonempty_index:
  "ntotal (index self) \<noteq> 0 \<Longrightarrow>
   search lib self q top_k doc_ids =
     (case lib (index self) q
             (min (if truthy doc_ids then top_k * 10 else top_k) (int (ntotal (index self)))) of
        Inl e \<Rightarrow> Inl e
      | Inr hits \<Rightarrow> search_loop self top_k doc_ids hits [])"
  by (simp add: search_def Let_def)


lemma sqdist_nonneg: "0 \<le> sqdist q v"
  unfolding sqdist_def by (rule sum_list_nonneg) auto

lemma similarity_antitone:
  "0 \<le> a \<Longrightarrow> a \<le> b \<Longrightarrow> 1 / (1 + b) \<le> 1 / (1 + (a::real))"
  by (simp add: frac_le)

lemma hits_ranked:
  assumes "sorted (map fst hits)" and "\<forall>h \<in> set hits. 0 \<le> fst h"
  shows "sorted_wrt (\<lambda>a b. snd b \<le> snd a)
           (take n (map (hit_result self) (filter P hits)))"
proof -
  from assms(1) have "sorted_wrt (\<lambda>a b. fst a \<le> fst b) hits"
    by (simp add: sorted_map)
  then have "sorted_wrt (\<lambda>a b. fst a \<le> fst b) (filter P hits)"
    by (rule sorted_wrt_filter)
  then have "sorted_wrt (\<lambda>a b. snd (hit_result self b) \<le> snd (hit_result self a)) (filter P hits)"
  proof (rule sorted_wrt_mono_rel [rotated])
    fix a b :: "real \<times> int"
    assume "a \<in> set (filter P hits)" and "fst a \<le> fst b"
    with assms(2) show "snd (hit_result self b) \<le> snd (hit_result self a)"
      by (simp add: hit_result_def similarity_antitone)
  qed
  then have "sorted_wrt (\<lambda>a b. snd b \<le> snd a) (map (hit_result self) (filter P hits))"
    by (simp add: sorted_wrt_map)
  then show ?thesis
    by (rule sorted_wrt_take)
qed

text \<open>
  What \<open>search\<close> returns when the index reports rows of the index only, nearest first and
  at non-negative distances: at most \<open>top_k\<close> results (one when \<open>top_k < 1\<close>), in order of
  non-increasing similarity, each similarity \<open>1 / (1 + d)\<close> of a reported distance \<open>d\<close> and
  so in \<open>(0, 1]\<close>.
\<close>

lemma search_ranked_when_labels_valid:
  assumes "ntotal (index self) \<noteq> 0"
    and "lib (index self) q
           (min (if truthy doc_ids then top_k * 10 else top_k) (int (ntotal (index self)))) = Inr hits"
    and "sorted (map fst hits)"
    and "\<forall>h \<in> set hits. 0 \<le> fst h \<and> 0 \<le> snd h"
  shows "\<exists>rs. search lib self q top_k doc_ids = Inr rs \<and>
           int (length rs) \<le> max 1 top_k \<and>
           sorted_wrt (\<lambda>a b. snd b \<le> snd a) rs \<and>
           (\<forall>r \<in> set rs. 0 < snd r \<and> snd r \<le> 1 \<and>
              (\<exists>h \<in> set hits. snd h < int (length (metadata self)) \<and>
                 fst r = metadata self ! nat (snd h) \<and> snd r = 1 / (1 + fst h)))"
proof -
  let ?rs = "take (nat (max 1 top_k)) (map (hit_result self) (filter (hit_kept self doc_ids) hits))"
  have lab: "\<forall>h \<in> set hits. - int (length (metadata self)) \<le> snd h"
  proof
    fix h assume "h \<in> set hits"
    with assms(4) have "0 \<le> snd h" by blast
    then show "- int (length (metadata self)) \<le> snd h" by simp
  qed
  have "search_loop self top_k doc_ids hits [] =
          Inr (take (nat (max 1 top_k)) ([] @ map (hit_result self) (filter (hit_kept self doc_ids) hits)))"
    by (rule search_loop_take [OF lab]) simp
  then have s: "search lib self q top_k doc_ids = Inr ?rs"
    using assms(1,2) by (simp add: search_nonempty_index)
  have nn: "\<forall>h \<in> set hits. 0 \<le> fst h"
    using assms(4) by blast
  have len: "int (length ?rs) \<le> max 1 top_k"
    by simp
  have srt: "sorted_wrt (\<lambda>a b. snd b \<le> snd a) ?rs"
    by (rule hits_ranked [OF assms(3) nn])
  have each: "0 < snd r \<and> snd r \<le> 1 \<and>
              (\<exists>h \<in> set hits. snd h < int (length (metadata self)) \<and>
                 fst r = metadata self ! nat (snd h) \<and> snd r = 1 / (1 + fst h))"
    if "r \<in> set ?rs" for r
  proof -
    from that have "r \<in> set (map (hit_result self) (filter (hit_kept self doc_ids) hits))"
      by (rule in_set_takeD)
    then obtain h where hin: "h \<in> set hits" and k: "hit_kept self doc_ids h"
      and r: "r = hit_result self h"
      by auto
    from assms(4) hin have d: "0 \<le> fst h" and l: "0 \<le> snd h" by auto
    from d have "0 < 1 / (1 + fst h)" and "1 / (1 + fst h) \<le> 1"
      by simp_all
    moreover from k have "snd h < int (length (metadata self))"
      by (simp add: hit_kept_def)
    ultimately show ?thesis
      using hin l unfolding r hit_result_def by (auto simp: py_get_nonneg)
  qed
  from s len srt each show ?thesis by blast
qed

text \<open>The definitions unfolded when \<open>search\<close> is run on the overflow example.\<close>

lemmas search_eval =
  store_eval overflow_store_def overflow_answer_def

text \<open>
  Claim C6 (search ordering and similarity) on the overflow example, a store built by
  \<open>add_embeddings\<close> on a new store and searched for the two rows nearest to \<open>[0, 0]\<close>. Every
  returned similarity should be \<open>1 / (1 + d)\<close> for the squared distance \<open>d\<close> to the stored
  vector of the returned chunk; here one is not. The index reports the
  label \<open>-1\<close> in the slot for which it found no row; the guard \<open>idx < len(self.metadata)\<close>
  lets it through and \<open>self.metadata[-1]\<close>, the chunk of row \<open>1\<close>, is returned a second time,
  with the similarity \<open>1 / (1 + FLT_MAX)\<close>. The squared distance from the query to the
  vector of that chunk is \<open>1\<close>, so its similarity is not \<open>1 / (1 + d)\<close>.
\<close>

theorem search_reads_last_row_for_label_minus_one:
  "search overflow_answer overflow_store [0, 0] 2 None =
     Inr [(example_chunk ''b'' 0, 1 / 2), (example_chunk ''b'' 0, 1 / (1 + flt_max))] \<and>
   snd (add_embeddings (VectorStore_init 2) \<lparr>ncols = 2, arows = [[10 ^ 20, 0], [1, 0]]\<rparr>
          [example_chunk ''a'' 0, example_chunk ''b'' 0]) = overflow_store \<and>
   metadata overflow_store = [example_chunk ''a'' 0, example_chunk ''b'' 0] \<and>
   sqdist [0, 0] (xb (index overflow_store) ! 1) = 1 \<and>
   1 / (1 + flt_max) \<noteq> 1 / (1 + sqdist [0, 0] (xb (index overflow_store) ! 1))"
  by (simp add: search_eval flt_max_def)

text \<open>
  Claim C7 as stated fails when the supplied \<open>doc_ids\<close> is the empty list: nothing is
  filtered, and the results have document identifiers that are not in the list.
\<close>

theorem search_empty_doc_ids_not_in_list:
  "search exact_search example_store [0, 0] 2 (Some []) =
     Inr [(example_chunk ''a'' 0, 1), (example_chunk ''a'' 1, 1 / 2)] \<and>
   doc_id (example_chunk ''a'' 0) \<notin> set ([] :: str list)"
  by (simp add: store_eval)

text \<open>
  Claim C7, amended (filter correctness). When \<open>doc_ids\<close> is a non-empty list, every result
  that \<open>search\<close> returns has a \<open>doc_id\<close> in the list, whatever the index reports. An empty
  index gives the empty list. On a non-empty index the index is asked for
  \<open>min (top_k * 10) ntotal\<close> candidates, and when it reports rows (labels from \<open>0\<close> up) the
  result is the first \<open>top_k\<close> (the first one when \<open>top_k < 1\<close>) of the candidates, in the
  order reported, that have a metadata entry with a \<open>doc_id\<close> in the list: fewer when fewer
  pass, with nothing added.
\<close>

theorem search_filter_by_doc_ids:
  assumes "ids \<noteq> []"
  shows "(\<forall>rs. search lib self q top_k (Some ids) = Inr rs \<longrightarrow>
            (\<forall>r \<in> set rs. doc_id (fst r) \<in> set ids)) \<and>
         (ntotal (index self) = 0 \<longrightarrow> search lib self q top_k (Some ids) = Inr []) \<and>
         (\<forall>pool. ntotal (index self) \<noteq> 0 \<and>
              lib (index self) q (min (top_k * 10) (int (ntotal (index self)))) = Inr pool \<and>
              (\<forall>h \<in> set pool. 0 \<le> snd h) \<longrightarrow>
            search lib self q top_k (Some ids) =
              Inr (take (nat (max 1 top_k))
                     (map (\<lambda>h. (metadata self ! nat (snd h), 1 / (1 + fst h)))
                        (filter (\<lambda>h. snd h < int (length (metadata self)) \<and>
                                     doc_id (metadata self ! nat (snd h)) \<in> set ids) pool))))"
proof (intro conjI allI impI)
  have t: "truthy (Some ids)"
    using assms by (cases ids) (simp_all add: truthy_def)
  {
    fix rs assume rs: "search lib self q top_k (Some ids) = Inr rs"
    show "\<forall>r \<in> set rs. doc_id (fst r) \<in> set ids"
    proof (cases "ntotal (index self) = 0")
      case True
      with rs show ?thesis by (simp add: search_def)
    next
      case False
      with rs obtain hits where "search_loop self top_k (Some ids) hits [] = Inr rs"
        by (auto simp: search_nonempty_index split: sum.splits)
      then have "\<forall>r \<in> set rs. truthy (Some ids) \<longrightarrow> py_in (doc_id (fst r)) (Some ids)"
        by (rule search_loop_filtered) simp
      with t show ?thesis by (simp add: py_in_def)
    qed
  next
    assume "ntotal (index self) = 0"
    then show "search lib self q top_k (Some ids) = Inr []"
      by (rule search_empty_index)
  next
    fix pool
    assume a: "ntotal (index self) \<noteq> 0 \<and>
               lib (index self) q (min (top_k * 10) (int (ntotal (index self)))) = Inr pool \<and>
               (\<forall>h \<in> set pool. 0 \<le> snd h)"
    then have nz: "ntotal (index self) \<noteq> 0"
      and pool: "lib (index self) q (min (top_k * 10) (int (ntotal (index self)))) = Inr pool"
      and lab: "\<forall>h \<in> set pool. 0 \<le> snd h"
      by simp_all
    have lab': "\<forall>h \<in> set pool. - int (length (metadata self)) \<le> snd h"
    proof
      fix h assume "h \<in> set pool"
      with lab have "0 \<le> snd h" by blast
      then show "- int (length (metadata self)) \<le> snd h" by simp
    qed
    have loop: "search_loop self top_k (Some ids) pool [] =
          Inr (take (nat (max 1 top_k))
                 ([] @ map (hit_result self) (filter (hit_kept self (Some ids)) pool)))"
      by (rule search_loop_take [OF lab']) simp
    have f: "filter (hit_kept self (Some ids)) pool =
             filter (\<lambda>h. snd h < int (length (metadata self)) \<and>
                          doc_id (metadata self ! nat (snd h)) \<in> set ids) pool"
    proof (rule filter_cong)
      show "pool = pool" by simp
    next
      fix h assume "h \<in> set pool"
      with lab have "0 \<le> snd h" by blast
      with t show "hit_kept self (Some ids) h =
          (snd h < int (length (metadata self)) \<and> doc_id (metadata self ! nat (snd h)) \<in> set ids)"
        by (auto simp: hit_kept_def py_in_def py_get_nonneg)
    qed
    have m: "map (hit_result self) xs = map (\<lambda>h. (metadata self ! nat (snd h), 1 / (1 + fst h))) xs"
      if "\<forall>h \<in> set xs. 0 \<le> snd h" for xs
    proof (rule map_cong)
      show "xs = xs" by simp
    next
      fix h assume "h \<in> set xs"
      with that have "0 \<le> snd h" by blast
      then show "hit_result self h = (metadata self ! nat (snd h), 1 / (1 + fst h))"
        by (simp add: hit_result_def py_get_nonneg)
    qed
    have "\<forall>h \<in> set (filter (hit_kept self (Some ids)) pool). 0 \<le> snd h"
      using lab by simp
    then have mm: "map (hit_result self) (filter (hit_kept self (Some ids)) pool) =
        map (\<lambda>h. (metadata self ! nat (snd h), 1 / (1 + fst h)))
          (filter (hit_kept self (Some ids)) pool)"
      by (rule m)
    have "search lib self q top_k (Some ids) =
            Inr (take (nat (max 1 top_k))
                   (map (hit_result self) (filter (hit_kept self (Some ids)) pool)))"
      using loop pool nz t by (simp add: search_nonempty_index)
    then have "search lib self q top_k (Some ids) =
            Inr (take (nat (max 1 top_k))
                   (map (\<lambda>h. (metadata self ! nat (snd h), 1 / (1 + fst h)))
                      (filter (hit_kept self (Some ids)) pool)))"
      by (simp only: mm)
    then show "search lib self q top_k (Some ids) =
              Inr (take (nat (max 1 top_k))
                     (map (\<lambda>h. (metadata self ! nat (snd h), 1 / (1 + fst h)))
                        (filter (\<lambda>h. snd h < int (length (metadata self)) \<and>
                                     doc_id (metadata self ! nat (snd h)) \<in> set ids) pool)))"
      by (simp only: f)
  }
qed

text \<open>One row of the example store belongs to document \<open>b\<close>; asking for two returns that one.\<close>

theorem search_filter_by_doc_ids_witness:
  "[lit ''b''] \<noteq> [] \<and> ntotal (index example_store) \<noteq> 0 \<and>
   exact_search (index example_store) [0, 0] (min (2 * 10) (int (ntotal (index example_store)))) =
     Inr [(0, 0), (1, 2), (25, 1)] \<and>
   search exact_search example_store [0, 0] 2 (Some [lit ''b'']) =
     Inr [(example_chunk ''b'' 0, 1 / 26)]"
  using search_filter_by_doc_ids [of "[lit ''b'']" exact_search example_store "[0, 0]" 2]
  by (simp add: store_eval)

text \<open>
  Claim C10 (empty \<open>doc_ids\<close> list). \<open>search\<close> with \<open>doc_ids = []\<close> is \<open>search\<close> with
  \<open>doc_ids = None\<close>, whatever the index reports: the same number of candidates is fetched
  and none is filtered out.
\<close>

theorem search_empty_doc_ids_unfiltered:
  "search lib self q top_k (Some []) = search lib self q top_k None"
proof -
  have a: "\<not> truthy (Some ([] :: str list))" and b: "\<not> truthy (None :: str list option)"
    by (simp_all add: truthy_def)
  show ?thesis
    unfolding search_def using a b search_loop_falsy [OF a b]
    by (simp add: Let_def split: sum.splits)
qed

text \<open>Both calls on the example store return the two rows of document \<open>a\<close>.\<close>

theorem search_empty_doc_ids_unfiltered_witness:
  "search exact_search example_store [0, 0] 2 (Some []) =
     Inr [(example_chunk ''a'' 0, 1), (example_chunk ''a'' 1, 1 / 2)] \<and>
   search exact_search example_store [0, 0] 2 None =
     Inr [(example_chunk ''a'' 0, 1), (example_chunk ''a'' 1, 1 / 2)]"
  using search_empty_doc_ids_unfiltered [of exact_search example_store "[0, 0]" 2]
  by (simp add: store_eval)

section \<open>Properties of the query engine\<close>

lemma lit_nonempty: "lit s = [] \<longleftrightarrow> s = []"
  by (simp add: lit_def)

lemma keyword_extract_nonempty:
  "keyword_extract re qn context = Some a \<Longrightarrow> a \<noteq> []"
  unfolding keyword_extract_def Let_def
  by (auto simp: lit_nonempty split: if_splits option.splits)

lemma context_preview_answer_nonempty: "context_preview_answer context \<noteq> []"
  by (simp add: context_preview_answer_def lit_nonempty)

lemma generate_fallback_answer_nonempty: "generate_fallback_answer re qn context \<noteq> []"
  by (simp add: generate_fallback_answer_def keyword_extract_nonempty
      context_preview_answer_nonempty split: option.splits)

lemma query_log_starts_with_embed:
  "\<exists>rest. snd (query rag qn doc_ids top_k) = EmbedCall qn # rest"
  by (simp add: query_def Let_def split: sum.splits)


text \<open>The definitions unfolded when the engine is run on a concrete input.\<close>

lemmas engine_eval =
  example_engine_def query_documents_def query_def source_context_def make_source_def
  generate_answer_def generate_fallback_answer_def keyword_extract_def
  context_preview_answer_def py_lower_def

text \<open>
  Claim C8 as stated fails for the engine's own operation: \<open>RAGEngine.query\<close> has no check,
  and on a question of three spaces it calls the embedding provider and returns a response.
\<close>

theorem engine_embeds_blank_question:
  "py_strip (lit ''   '') = [] \<and>
   \<not> isl (fst (query example_engine (lit ''   '') None 5)) \<and>
   EmbedCall (lit ''   '') \<in> set (snd (query example_engine (lit ''   '') None 5))"
  by (simp add: engine_eval store_eval py_strip_def isspace_def Let_def)

text \<open>
  Claim C8, amended (blank question). The endpoint \<open>query_documents\<close> rejects a question
  that is blank after \<open>strip()\<close> with \<open>HTTPException(400)\<close> before it calls the engine: no
  call to the embedding provider or to the backend is made, and nothing is retried. For any
  other question the first call made is the embedding of the question.
\<close>

theorem blank_question_rejected:
  "(py_strip (req_question request) = [] \<longrightarrow>
      query_documents rag request = (Inl (HTTPException 400), [])) \<and>
   (py_strip (req_question request) \<noteq> [] \<longrightarrow>
      (\<exists>rest. snd (query_documents rag request) = EmbedCall (req_question request) # rest))"
  using query_log_starts_with_embed [of rag "req_question request" "req_doc_ids request" "req_top_k request"]
  by (simp add: query_documents_def)

text \<open>A question of three spaces is rejected; the question \<open>Who?\<close> is embedded.\<close>

theorem blank_question_rejected_witness:
  "py_strip (lit ''   '') = [] \<and>
   query_documents example_engine \<lparr>req_question = lit ''   '', req_doc_ids = None, req_top_k = 5\<rparr> =
     (Inl (HTTPException 400), []) \<and>
   py_strip (lit ''Who?'') = lit ''Who?'' \<and>
   hd (snd (query_documents example_engine
              \<lparr>req_question = lit ''Who?'', req_doc_ids = None, req_top_k = 5\<rparr>)) =
     EmbedCall (lit ''Who?'')"
  using blank_question_rejected [of "\<lparr>req_question = lit ''   '', req_doc_ids = None, req_top_k = 5\<rparr>" example_engine]
    blank_question_rejected [of "\<lparr>req_question = lit ''Who?'', req_doc_ids = None, req_top_k = 5\<rparr>" example_engine]
  by (auto simp: query_documents_def py_strip_def isspace_def lit_def)

text \<open>
  The context is the numbered texts of the results, and a failing backend makes \<open>query\<close>
  answer with \<open>_generate_fallback_answer\<close>.
\<close>

lemma source_context_text:
  "source_context rs =
   py_join [10, 10]
     (map (\<lambda>(i, chunk). lit ''[Source '' @ py_str_nat (i + 1) @ lit '']: '' @ chunk)
        (enumerate 0 (map (\<lambda>r. text (fst r)) rs)))"
proof -
  have "(\<lambda>(m :: chunk_metadata, similarity :: real). text m) = (\<lambda>r. text (fst r))"
    by (rule ext) (simp add: case_prod_beta)
  then show ?thesis
    unfolding source_context_def by (simp only:)
qed

lemma query_falls_back:
  assumes "search (index_search self) (vector_store self) (embed_text self qn) top_k doc_ids = Inr rs"
    and "rs \<noteq> []"
    and "llm_generate self (create_prompt qn (source_context rs)) = Inl e"
  shows "\<exists>resp. fst (query self qn doc_ids top_k) = Inr resp \<and> question resp = qn \<and>
           length (sources resp) = length rs \<and>
           answer resp = generate_fallback_answer (re_search self) qn (source_context rs)"
  using assms by (simp add: query_def Let_def generate_answer_def)

text \<open>
  Claim C9 (fallback availability). When \<open>search\<close> returns at least one result and the
  backend raises on the prompt, \<open>query\<close> returns a response, for the same question and with
  one source per result, whose answer is not empty. The answer is decided by the first of
  seven keyword tests that the lower-cased question passes (\<open>k1\<close> to \<open>k7\<close>, in the order of
  the source): it is that branch's sentence around group 1 of the branch's regular
  expression when the expression matches in the context (for the summary, the lines of the
  expressions that match), and otherwise, as when no test passes, the preview:
  \<open>Based on the retrieved documents: \<close>, the first 500 code points of the context, \<open>...\<close>
  and the note that the LLM is unavailable.
\<close>

theorem fallback_on_backend_failure:
  fixes self :: rag_engine and qn :: str and rs :: "(chunk_metadata \<times> real) list"
  defines "ctx \<equiv> py_join [10, 10]
             (map (\<lambda>(i, chunk). lit ''[Source '' @ py_str_nat (i + 1) @ lit '']: '' @ chunk)
                (enumerate 0 (map (\<lambda>r. text (fst r)) rs)))"
  defines "preview \<equiv> lit ''Based on the retrieved documents: '' @ take 500 ctx @ lit ''...'' @ [10, 10] @
             lit ''(Note: LLM is currently unavailable. This is a basic extraction from the documents. For better answers, please configure OpenAI API key or ensure Ollama is running with llama2 model loaded.)''"
  defines "has \<equiv> (\<lambda>k. py_contains (lit k) (py_lower qn))"
    and "found \<equiv> (\<lambda>p. re_search self p ctx)"
  defines "k1 \<equiv> has ''policy number''"
    and "k2 \<equiv> has ''claim amount'' \<or> (has ''claim'' \<and> has ''amount'')"
    and "k3 \<equiv> has ''hospital''"
    and "k4 \<equiv> has ''diagnosis''"
    and "k5 \<equiv> has ''sum assured'' \<or> has ''coverage''"
    and "k6 \<equiv> has ''patient'' \<or> has ''name''"
    and "k7 \<equiv> has ''summarize'' \<or> has ''summary''"
  assumes found_sources:
      "search (index_search self) (vector_store self) (embed_text self qn) top_k doc_ids = Inr rs"
    and some_source: "rs \<noteq> []"
    and backend_fails: "llm_generate self (create_prompt qn ctx) = Inl e"
  shows "\<exists>resp. fst (query self qn doc_ids top_k) = Inr resp \<and> question resp = qn \<and>
           length (sources resp) = length rs \<and> answer resp \<noteq> [] \<and>
           (k1 \<longrightarrow> answer resp =
              (case (case found PolicyNumberFormat of
                       None \<Rightarrow> found PolicyNumberLoose | Some g \<Rightarrow> Some g) of
                 Some g \<Rightarrow> lit ''Based on the documents, the policy number is '' @ g @ lit ''.''
               | None \<Rightarrow> preview)) \<and>
           (\<not> k1 \<and> k2 \<longrightarrow> answer resp =
              (case found ClaimAmount of
                 Some g \<Rightarrow> lit ''Based on the documents, the claim amount is '' @ [8377] @ g @ lit ''.''
               | None \<Rightarrow> preview)) \<and>
           (\<not> k1 \<and> \<not> k2 \<and> k3 \<longrightarrow> answer resp =
              (case found HospitalName of
                 Some g \<Rightarrow> lit ''Based on the documents, the hospital mentioned is '' @ py_strip g @ lit ''.''
               | None \<Rightarrow> preview)) \<and>
           (\<not> k1 \<and> \<not> k2 \<and> \<not> k3 \<and> k4 \<longrightarrow> answer resp =
              (case found Diagnosis of
                 Some g \<Rightarrow> lit ''Based on the documents, the diagnosis is '' @ py_strip g @ lit ''.''
               | None \<Rightarrow> preview)) \<and>
           (\<not> k1 \<and> \<not> k2 \<and> \<not> k3 \<and> \<not> k4 \<and> k5 \<longrightarrow> answer resp =
              (case found SumAssured of
                 Some g \<Rightarrow> lit ''Based on the documents, the sum assured is '' @ [8377] @ g @ lit ''.''
               | None \<Rightarrow> preview)) \<and>
           (\<not> k1 \<and> \<not> k2 \<and> \<not> k3 \<and> \<not> k4 \<and> \<not> k5 \<and> k6 \<longrightarrow> answer resp =
              (case found PatientName of
                 Some g \<Rightarrow> lit ''Based on the documents, the patient name is '' @ py_strip g @ lit ''.''
               | None \<Rightarrow> preview)) \<and>
           (\<not> k1 \<and> \<not> k2 \<and> \<not> k3 \<and> \<not> k4 \<and> \<not> k5 \<and> \<not> k6 \<and> k7 \<longrightarrow> answer resp =
              (let parts =
                     (case found SummaryPolicy of
                        Some g \<Rightarrow> [lit ''Policy Number: '' @ g] | None \<Rightarrow> []) @
                     (case found SummaryClaim of
                        Some g \<Rightarrow> [lit ''Claim Amount: '' @ [8377] @ g] | None \<Rightarrow> []) @
                     (case found SummaryHospital of
                        Some g \<Rightarrow> [lit ''Hospital: '' @ py_strip g] | None \<Rightarrow> [])
               in if parts \<noteq> []
                  then lit ''Based on the documents, here'' @ [39] @ lit ''s a summary:'' @ [10] @
                       py_join [10] parts
                  else preview)) \<and>
           (\<not> k1 \<and> \<not> k2 \<and> \<not> k3 \<and> \<not> k4 \<and> \<not> k5 \<and> \<not> k6 \<and> \<not> k7 \<longrightarrow>
              answer resp = preview)"
proof -
  have c: "source_context rs = ctx"
    unfolding ctx_def by (rule source_context_text)
  from backend_fails have l: "llm_generate self (create_prompt qn (source_context rs)) = Inl e"
    by (simp only: c)
  from query_falls_back [OF found_sources some_source l] obtain resp where
    r: "fst (query self qn doc_ids top_k) = Inr resp" and q: "question resp = qn"
    and n: "length (sources resp) = length rs"
    and a: "answer resp = generate_fallback_answer (re_search self) qn ctx"
    unfolding c by blast
  have ne: "answer resp \<noteq> []"
    unfolding a by (rule generate_fallback_answer_nonempty)
  note unfold = a generate_fallback_answer_def keyword_extract_def context_preview_answer_def
    Let_def k1_def k2_def k3_def k4_def k5_def k6_def k7_def has_def found_def preview_def
  have b1: "k1 \<longrightarrow> answer resp =
              (case (case found PolicyNumberFormat of
                       None \<Rightarrow> found PolicyNumberLoose | Some g \<Rightarrow> Some g) of
                 Some g \<Rightarrow> lit ''Based on the documents, the policy number is '' @ g @ lit ''.''
               | None \<Rightarrow> preview)"
    by (simp add: unfold split: option.splits)
  have b2: "\<not> k1 \<and> k2 \<longrightarrow> answer resp =
              (case found ClaimAmount of
                 Some g \<Rightarrow> lit ''Based on the documents, the claim amount is '' @ [8377] @ g @ lit ''.''
               | None \<Rightarrow> preview)"
    by (simp add: unfold split: option.splits)
  have b3: "\<not> k1 \<and> \<not> k2 \<and> k3 \<longrightarrow> answer resp =
              (case found HospitalName of
                 Some g \<Rightarrow> lit ''Based on the documents, the hospital mentioned is '' @ py_strip g @ lit ''.''
               | None \<Rightarrow> preview)"
    by (simp add: unfold split: option.splits)
  have b4: "\<not> k1 \<and> \<not> k2 \<and> \<not> k3 \<and> k4 \<longrightarrow> answer resp =
              (case found Diagnosis of
                 Some g \<Rightarrow> lit ''Based on the documents, the diagnosis is '' @ py_strip g @ lit ''.''
               | None \<Rightarrow> preview)"
    by (simp add: unfold split: option.splits)
  have b5: "\<not> k1 \<and> \<not> k2 \<and> \<not> k3 \<and> \<not> k4 \<and> k5 \<longrightarrow> answer resp =
              (case found SumAssured of
                 Some g \<Rightarrow> lit ''Based on the documents, the sum assured is '' @ [8377] @ g @ lit ''.''
               | None \<Rightarrow> preview)"
    by (simp add: unfold split: option.splits)
  have b6: "\<not> k1 \<and> \<not> k2 \<and> \<not> k3 \<and> \<not> k4 \<and> \<not> k5 \<and> k6 \<longrightarrow> answer resp =
              (case found PatientName of
                 Some g \<Rightarrow> lit ''Based on the documents, the patient name is '' @ py_strip g @ lit ''.''
               | None \<Rightarrow> preview)"
    by (simp add: unfold split: option.splits)
  have b7: "\<not> k1 \<and> \<not> k2 \<and> \<not> k3 \<and> \<not> k4 \<and> \<not> k5 \<and> \<not> k6 \<and> k7 \<longrightarrow> answer resp =
              (let parts =
                     (case found SummaryPolicy of
                        Some g \<Rightarrow> [lit ''Policy Number: '' @ g] | None \<Rightarrow> []) @
                     (case found SummaryClaim of
                        Some g \<Rightarrow> [lit ''Claim Amount: '' @ [8377] @ g] | None \<Rightarrow> []) @
                     (case found SummaryHospital of
                        Some g \<Rightarrow> [lit ''Hospital: '' @ py_strip g] | None \<Rightarrow> [])
               in if parts \<noteq> []
                  then lit ''Based on the documents, here'' @ [39] @ lit ''s a summary:'' @ [10] @
                       py_join [10] parts
                  else preview)"
    by (simp add: unfold split: option.splits)
  have b8: "\<not> k1 \<and> \<not> k2 \<and> \<not> k3 \<and> \<not> k4 \<and> \<not> k5 \<and> \<not> k6 \<and> \<not> k7 \<longrightarrow>
              answer resp = preview"
    by (simp add: unfold)
  from r q n ne b1 b2 b3 b4 b5 b6 b7 b8 show ?thesis
    by (intro exI [of _ resp] conjI)
qed


text \<open>
  The example engine, whose backend always fails: on a question without keywords the answer
  is the preview of the context built from the nearest chunk, and on a question about the
  policy number, with a regular expression search that finds one, it is the extraction.
\<close>

theorem fallback_on_backend_failure_witness:
  "search (index_search example_engine) (vector_store example_engine)
     (embed_text example_engine (lit ''What is covered?'')) 1 None =
     Inr [(example_chunk ''a'' 0, 1)] \<and>
   llm_generate example_engine
     (create_prompt (lit ''What is covered?'') (lit ''[Source 1]: Some text.'')) =
     Inl (Exception (lit ''Ollama request timed out.'')) \<and>
   map_sum id answer (fst (query example_engine (lit ''What is covered?'') None 1)) =
     Inr (lit ''Based on the retrieved documents: [Source 1]: Some text....'' @ [10, 10] @
          lit ''(Note: LLM is currently unavailable. This is a basic extraction from the documents. For better answers, please configure OpenAI API key or ensure Ollama is running with llama2 model loaded.)'') \<and>
   map_sum id answer
     (fst (query (example_engine\<lparr>re_search :=
                     (\<lambda>p s. if p = PolicyNumberLoose then Some (lit ''POL/2024/000123'') else None)\<rparr>)
             (lit ''What is the Policy Number?'') None 1)) =
     Inr (lit ''Based on the documents, the policy number is POL/2024/000123.'')"
  using fallback_on_backend_failure
      [where self = example_engine and qn = "lit ''What is covered?''" and top_k = 1
         and doc_ids = None and rs = "[(example_chunk ''a'' 0, 1)]"
         and e = "Exception (lit ''Ollama request timed out.'')"]
    fallback_on_backend_failure
      [where self = "example_engine\<lparr>re_search :=
                       (\<lambda>p s. if p = PolicyNumberLoose then Some (lit ''POL/2024/000123'') else None)\<rparr>"
         and qn = "lit ''What is the Policy Number?''" and top_k = 1
         and doc_ids = None and rs = "[(example_chunk ''a'' 0, 1)]"
         and e = "Exception (lit ''Ollama request timed out.'')"]
  by (simp add: engine_eval store_eval Let_def)

end
